theory Spec2Isabelle
  imports Main
begin

section \<open>Runtime values (runtime.cpp)\<close>

text \<open>
  An \<open>ObjectHolder\<close> is a shared pointer to an \<open>Object\<close>. Numbers, strings and booleans
  are immutable, so their holder carries the value; a class is named by its place in the
  class table (the C++ reference \<open>const Class&\<close>); a \<open>ClassInstance\<close> is mutable and its
  identity is observed (\<open>closure.at("self").Get() != this\<close>), so its holder carries the
  address of the instance in the heap. An owning holder and the non-owning one made by
  \<open>ObjectHolder::Share\<close> hold the same address. Objects are never freed in the model.
\<close>

datatype holder =
    HNone
  | HNumber int
  | HString string
  | HBool bool
  | HClass nat
  | HInstance nat

text \<open>
  Modelled from the spec: \<open>Closure\<close> is declared in runtime.h, which is not among the
  sources; the spec has a scope as a map from name to value handle.
\<close>

type_synonym closure = "string \<rightharpoonup> holder"

datatype comparator =
    CmpEqual | CmpNotEqual | CmpLess | CmpGreater | CmpLessOrEqual | CmpGreaterOrEqual

text \<open>
  The nodes of statement.cpp. A class is referred to by its index in the class table. The
  six functions of runtime.cpp are the comparators a \<open>Comparison\<close> node can hold. The
  literal nodes are templates of statement.h and have no \<open>Execute\<close> in statement.cpp.
\<close>

datatype statement =
    Assignment string statement
  | VariableValue "string list"
  | Print "statement list"
  | MethodCall statement string "statement list"
  | Stringify statement
  | Add statement statement
  | Sub statement statement
  | Mult statement statement
  | Div statement statement
  | Compound "statement list"
  | Return statement
  | ClassDefinition nat
  | FieldAssignment "string list" string statement
  | IfElse statement statement "statement option"
  | Or statement statement
  | And statement statement
  | NotOp statement
  | Comparison comparator statement statement
  | NewInstance nat "statement list"
  | MethodBody statement

datatype Method = Method (method_name: string) (formal_params: "string list") (method_body: statement)

datatype Class = Class (GetName: string) (cls_methods: "Method list") (cls_parent: "Class option")

record ClassInstance =
  cls :: nat
  Fields :: closure

record state =
  heap :: "nat \<Rightarrow> ClassInstance"
  next_addr :: nat
  out :: string

datatype error =
    RuntimeError string
  | OutOfRange
  | UndefinedBehaviour string

datatype 'a outcome = Diverged | Raised error | Returned 'a

definition obind :: "'a outcome \<Rightarrow> ('a \<Rightarrow> 'b outcome) \<Rightarrow> 'b outcome" where
  "obind x f = (case x of Diverged \<Rightarrow> Diverged | Raised e \<Rightarrow> Raised e | Returned v \<Rightarrow> f v)"

type_synonym executor = "statement \<Rightarrow> closure \<Rightarrow> state \<Rightarrow> (holder \<times> closure \<times> state) outcome"

type_synonym class_table = "nat \<Rightarrow> Class"

subsection \<open>Class and method table\<close>

text \<open>The constructor of \<open>Class\<close> fills \<open>name_to_method_index_\<close> from left to right.\<close>

definition name_to_method_index :: "Method list \<Rightarrow> (string \<rightharpoonup> nat)" where
  "name_to_method_index ms =
     fold (\<lambda>i idx. idx(method_name (ms ! i) \<mapsto> i)) [0..<length ms] Map.empty"

fun GetMethod :: "Class \<Rightarrow> string \<Rightarrow> Method option" where
  "GetMethod (Class nm ms par) name =
     (case name_to_method_index ms name of
        Some i \<Rightarrow> Some (ms ! i)
      | None \<Rightarrow> (case par of Some p \<Rightarrow> GetMethod p name | None \<Rightarrow> None))"

definition HasMethod :: "Class \<Rightarrow> string \<Rightarrow> nat \<Rightarrow> bool" where
  "HasMethod c method argument_count =
     (case GetMethod c method of
        Some method_ptr \<Rightarrow> length (formal_params method_ptr) = argument_count
      | None \<Rightarrow> False)"

definition class_of :: "class_table \<Rightarrow> state \<Rightarrow> nat \<Rightarrow> Class" where
  "class_of ct st this = ct (cls (heap st this))"

fun IsTrue :: "holder \<Rightarrow> bool" where
  "IsTrue HNone = False"
| "IsTrue (HBool b) = b"
| "IsTrue (HNumber n) = (n \<noteq> 0)"
| "IsTrue (HString s) = (s \<noteq> [])"
| "IsTrue (HClass k) = False"
| "IsTrue (HInstance a) = False"

subsection \<open>Method dispatch\<close>

definition bind_params :: "string list \<Rightarrow> holder list \<Rightarrow> closure \<Rightarrow> closure" where
  "bind_params params actual_args c = fold (\<lambda>(p, a) m. m(p \<mapsto> a)) (zip params actual_args) c"

definition call_closure :: "nat \<Rightarrow> Method \<Rightarrow> holder list \<Rightarrow> closure" where
  "call_closure this method_ptr actual_args =
     bind_params (formal_params method_ptr) actual_args (Map.empty(''self'' \<mapsto> HInstance this))"

definition Call ::
  "class_table \<Rightarrow> executor \<Rightarrow> nat \<Rightarrow> string \<Rightarrow> holder list \<Rightarrow> state \<Rightarrow> (holder \<times> state) outcome" where
  "Call ct exec this method actual_args st =
     (if \<not> HasMethod (class_of ct st this) method (length actual_args)
      then Raised (RuntimeError ''method not found'')
      else case GetMethod (class_of ct st this) method of
        None \<Rightarrow> Raised (UndefinedBehaviour ''null method pointer'')
      | Some method_ptr \<Rightarrow>
          obind (exec (method_body method_ptr) (call_closure this method_ptr actual_args) st)
            (\<lambda>(result, closure', st').
               case closure' ''self'' of
                 None \<Rightarrow> Raised OutOfRange
               | Some self \<Rightarrow>
                   if self \<noteq> HInstance this then Returned (self, st')
                   else Returned (result, st')))"

subsection \<open>Comparator helpers\<close>

definition cannot_compare_equality :: error where
  "cannot_compare_equality = RuntimeError ''Cannot compare objects for equality''"

definition cannot_compare_less :: error where
  "cannot_compare_less = RuntimeError ''Cannot compare objects for less''"

text \<open>\<open>std::string::operator<\<close>: lexicographic, characters compared as unsigned bytes.\<close>

fun string_less :: "string \<Rightarrow> string \<Rightarrow> bool" where
  "string_less [] [] = False"
| "string_less [] (y # ys) = True"
| "string_less (x # xs) [] = False"
| "string_less (x # xs) (y # ys) =
     ((of_char x :: nat) < of_char y \<or> (x = y \<and> string_less xs ys))"

definition Equal ::
  "class_table \<Rightarrow> executor \<Rightarrow> holder \<Rightarrow> holder \<Rightarrow> state \<Rightarrow> (bool \<times> state) outcome" where
  "Equal ct exec lhs rhs st =
     (if lhs = HNone \<and> rhs = HNone then Returned (True, st)
      else case lhs of
        HString left \<Rightarrow>
          (case rhs of HString right \<Rightarrow> Returned (left = right, st)
           | _ \<Rightarrow> Raised cannot_compare_equality)
      | HNumber left \<Rightarrow>
          (case rhs of HNumber right \<Rightarrow> Returned (left = right, st)
           | _ \<Rightarrow> Raised cannot_compare_equality)
      | HBool left \<Rightarrow>
          (case rhs of HBool right \<Rightarrow> Returned (left = right, st)
           | _ \<Rightarrow> Raised cannot_compare_equality)
      | HInstance left \<Rightarrow>
          if HasMethod (class_of ct st left) ''__eq__'' 1
          then obind (Call ct exec left ''__eq__'' [rhs] st)
                 (\<lambda>(r, st'). Returned (IsTrue r, st'))
          else Raised cannot_compare_equality
      | _ \<Rightarrow> Raised cannot_compare_equality)"

definition Less ::
  "class_table \<Rightarrow> executor \<Rightarrow> holder \<Rightarrow> holder \<Rightarrow> state \<Rightarrow> (bool \<times> state) outcome" where
  "Less ct exec lhs rhs st =
     (case lhs of
        HString left \<Rightarrow>
          (case rhs of HString right \<Rightarrow> Returned (string_less left right, st)
           | _ \<Rightarrow> Raised cannot_compare_less)
      | HNumber left \<Rightarrow>
          (case rhs of HNumber right \<Rightarrow> Returned (left < right, st)
           | _ \<Rightarrow> Raised cannot_compare_less)
      | HBool left \<Rightarrow>
          (case rhs of HBool right \<Rightarrow> Returned (left < right, st)
           | _ \<Rightarrow> Raised cannot_compare_less)
      | HInstance left \<Rightarrow>
          if HasMethod (class_of ct st left) ''__lt__'' 1
          then obind (Call ct exec left ''__lt__'' [rhs] st)
                 (\<lambda>(r, st'). Returned (IsTrue r, st'))
          else Raised cannot_compare_less
      | _ \<Rightarrow> Raised cannot_compare_less)"

definition NotEqual ::
  "class_table \<Rightarrow> executor \<Rightarrow> holder \<Rightarrow> holder \<Rightarrow> state \<Rightarrow> (bool \<times> state) outcome" where
  "NotEqual ct exec lhs rhs st =
     obind (Equal ct exec lhs rhs st) (\<lambda>(b, st'). Returned (\<not> b, st'))"

text \<open>\<open>!(Less(..) || Equal(..))\<close>: \<open>Equal\<close> is only called when \<open>Less\<close> returned false.\<close>

definition Greater ::
  "class_table \<Rightarrow> executor \<Rightarrow> holder \<Rightarrow> holder \<Rightarrow> state \<Rightarrow> (bool \<times> state) outcome" where
  "Greater ct exec lhs rhs st =
     obind (Less ct exec lhs rhs st)
       (\<lambda>(l, st'). if l then Returned (False, st')
                    else obind (Equal ct exec lhs rhs st') (\<lambda>(e, st''). Returned (\<not> e, st'')))"

definition LessOrEqual ::
  "class_table \<Rightarrow> executor \<Rightarrow> holder \<Rightarrow> holder \<Rightarrow> state \<Rightarrow> (bool \<times> state) outcome" where
  "LessOrEqual ct exec lhs rhs st =
     obind (Greater ct exec lhs rhs st) (\<lambda>(b, st'). Returned (\<not> b, st'))"

definition GreaterOrEqual ::
  "class_table \<Rightarrow> executor \<Rightarrow> holder \<Rightarrow> holder \<Rightarrow> state \<Rightarrow> (bool \<times> state) outcome" where
  "GreaterOrEqual ct exec lhs rhs st =
     obind (Less ct exec lhs rhs st) (\<lambda>(b, st'). Returned (\<not> b, st'))"

fun apply_comparator ::
  "comparator \<Rightarrow> class_table \<Rightarrow> executor \<Rightarrow> holder \<Rightarrow> holder \<Rightarrow> state \<Rightarrow> (bool \<times> state) outcome" where
  "apply_comparator CmpEqual = Equal"
| "apply_comparator CmpNotEqual = NotEqual"
| "apply_comparator CmpLess = Less"
| "apply_comparator CmpGreater = Greater"
| "apply_comparator CmpLessOrEqual = LessOrEqual"
| "apply_comparator CmpGreaterOrEqual = GreaterOrEqual"

subsection \<open>Printing\<close>

text \<open>
  Modelled from the spec: \<open>Number::Print\<close> and \<open>String::Print\<close> are declared in runtime.h,
  which is not among the sources; "Number prints its decimal; String prints its contents".
  \<open>os << this\<close> prints the address of the instance; the model renders the address in decimal
  after \<open>0x\<close>, an opaque marker that differs between instances.
\<close>

fun show_nat :: "nat \<Rightarrow> string" where
  "show_nat n =
     (if n < 10 then [''0123456789'' ! n] else show_nat (n div 10) @ [''0123456789'' ! (n mod 10)])"

declare show_nat.simps [simp del]

definition show_int :: "int \<Rightarrow> string" where
  "show_int i = (if i < 0 then CHR ''-'' # show_nat (nat (- i)) else show_nat (nat i))"

definition show_pointer :: "nat \<Rightarrow> string" where
  "show_pointer a = ''0x'' @ show_nat a"

definition ClassInstance_Print ::
  "class_table \<Rightarrow> executor \<Rightarrow> nat \<Rightarrow> state \<Rightarrow> (string \<times> state) outcome" where
  "ClassInstance_Print ct exec this st =
     (case GetMethod (class_of ct st this) ''__str__'' of
        Some m \<Rightarrow>
          obind (Call ct exec this ''__str__'' [] st)
            (\<lambda>(r, st'). case r of
                 HString s \<Rightarrow> Returned (s, st')
               | _ \<Rightarrow> Raised (UndefinedBehaviour ''null pointer dereference''))
      | None \<Rightarrow> Returned (show_pointer this, st))"

text \<open>The virtual \<open>Object::Print\<close>: the text written to \<open>os\<close>, and the state after the call.\<close>

fun Object_Print ::
  "class_table \<Rightarrow> executor \<Rightarrow> holder \<Rightarrow> state \<Rightarrow> (string \<times> state) outcome" where
  "Object_Print ct exec HNone st = Raised (UndefinedBehaviour ''null pointer dereference'')"
| "Object_Print ct exec (HNumber n) st = Returned (show_int n, st)"
| "Object_Print ct exec (HString s) st = Returned (s, st)"
| "Object_Print ct exec (HBool b) st = Returned (if b then ''True'' else ''False'', st)"
| "Object_Print ct exec (HClass k) st = Returned (''Class '' @ GetName (ct k), st)"
| "Object_Print ct exec (HInstance a) st = ClassInstance_Print ct exec a st"

section \<open>The evaluator (statement.cpp)\<close>

text \<open>
  Every \<open>Execute\<close> takes the closure by reference and the context; the model passes the
  closure and the state (heap and output stream) and returns them updated. The parameter
  \<open>exec\<close> stands for the virtual call \<open>Statement::Execute\<close> on a child node.
\<close>

definition Assignment_Execute ::
  "executor \<Rightarrow> string \<Rightarrow> statement \<Rightarrow> closure \<Rightarrow> state \<Rightarrow> (holder \<times> closure \<times> state) outcome" where
  "Assignment_Execute exec var rv c st =
     obind (exec rv c st) (\<lambda>(v, c', st'). Returned (v, c'(var \<mapsto> v), st'))"

text \<open>
  \<open>tmp->Fields()[ids_[i]]\<close> is \<open>unordered_map::operator[]\<close>: a key that is absent is inserted
  with a default-constructed (empty) holder.
\<close>

fun VariableValue_loop ::
  "string list \<Rightarrow> holder \<Rightarrow> closure \<Rightarrow> state \<Rightarrow> (holder \<times> closure \<times> state) outcome" where
  "VariableValue_loop [] object c st = Returned (object, c, st)"
| "VariableValue_loop (i # ids) object c st =
     (case object of
        HInstance a \<Rightarrow>
          (case Fields (heap st a) i of
             Some v \<Rightarrow> VariableValue_loop ids v c st
           | None \<Rightarrow>
               VariableValue_loop ids HNone c
                 (st\<lparr>heap := (heap st)(a := (heap st a)\<lparr>Fields := (Fields (heap st a))(i \<mapsto> HNone)\<rparr>)\<rparr>))
      | _ \<Rightarrow> Raised (RuntimeError (''unknown field '' @ i)))"

definition VariableValue_Execute ::
  "string list \<Rightarrow> closure \<Rightarrow> state \<Rightarrow> (holder \<times> closure \<times> state) outcome" where
  "VariableValue_Execute ids c st =
     (case ids of
        [] \<Rightarrow> Raised (UndefinedBehaviour ''index out of range'')
      | i0 # rest \<Rightarrow>
          (case c i0 of
             None \<Rightarrow> Raised (RuntimeError (''unknown variable '' @ i0))
           | Some object \<Rightarrow> VariableValue_loop rest object c st))"

fun Print_loop ::
  "class_table \<Rightarrow> executor \<Rightarrow> statement list \<Rightarrow> closure \<Rightarrow> state \<Rightarrow> (closure \<times> state) outcome" where
  "Print_loop ct exec [] c st = Returned (c, st)"
| "Print_loop ct exec (a # as) c st =
     obind (exec a c st)
       (\<lambda>(tmp, c', st').
          obind (if tmp \<noteq> HNone then Object_Print ct exec tmp st' else Returned (''None'', st'))
            (\<lambda>(txt, st'').
               Print_loop ct exec as c'
                 (st''\<lparr>out := out st'' @ txt @ (if as \<noteq> [] then '' '' else [])\<rparr>)))"

definition Print_Execute ::
  "class_table \<Rightarrow> executor \<Rightarrow> statement list \<Rightarrow> closure \<Rightarrow> state \<Rightarrow> (holder \<times> closure \<times> state) outcome" where
  "Print_Execute ct exec args c st =
     obind (Print_loop ct exec args c st)
       (\<lambda>(c', st'). Returned (HNone, c', st'\<lparr>out := out st' @ [CHR 0x0A]\<rparr>))"

fun Execute_args ::
  "executor \<Rightarrow> statement list \<Rightarrow> closure \<Rightarrow> state \<Rightarrow> (holder list \<times> closure \<times> state) outcome" where
  "Execute_args exec [] c st = Returned ([], c, st)"
| "Execute_args exec (a # as) c st =
     obind (exec a c st)
       (\<lambda>(v, c', st').
          obind (Execute_args exec as c' st')
            (\<lambda>(vs, c'', st''). Returned (v # vs, c'', st'')))"

text \<open>
  \<open>TryAs<ClassInstance>()\<close> yields a null pointer for a holder that is no instance; calling
  through it is undefined behaviour.
\<close>

definition MethodCall_Execute ::
  "class_table \<Rightarrow> executor \<Rightarrow> statement \<Rightarrow> string \<Rightarrow> statement list \<Rightarrow> closure \<Rightarrow> state
     \<Rightarrow> (holder \<times> closure \<times> state) outcome" where
  "MethodCall_Execute ct exec object method args c st =
     obind (Execute_args exec args c st)
       (\<lambda>(actual_args, c1, st1).
          obind (exec object c1 st1)
            (\<lambda>(receiver, c2, st2).
               case receiver of
                 HInstance a \<Rightarrow>
                   obind (Call ct exec a method actual_args st2) (\<lambda>(r, st3). Returned (r, c2, st3))
               | _ \<Rightarrow> Raised (UndefinedBehaviour ''null pointer dereference'')))"

definition has_str0 :: "class_table \<Rightarrow> state \<Rightarrow> holder \<Rightarrow> bool" where
  "has_str0 ct st object =
     (case object of HInstance a \<Rightarrow> HasMethod (class_of ct st a) ''__str__'' 0 | _ \<Rightarrow> False)"

definition Stringify_Execute ::
  "class_table \<Rightarrow> executor \<Rightarrow> statement \<Rightarrow> closure \<Rightarrow> state \<Rightarrow> (holder \<times> closure \<times> state) outcome" where
  "Stringify_Execute ct exec argument c st =
     obind (exec argument c st)
       (\<lambda>(object, c', st').
          if object = HNone then Returned (HString ''None'', c', st')
          else if has_str0 ct st' object
          then (case object of
                  HInstance a \<Rightarrow>
                    obind (Call ct exec a ''__str__'' [] st')
                      (\<lambda>(r, st'').
                         obind (Object_Print ct exec r st'')
                           (\<lambda>(txt, st3). Returned (HString txt, c', st3)))
                | _ \<Rightarrow> Raised (UndefinedBehaviour ''null pointer dereference''))
          else obind (Object_Print ct exec object st')
                 (\<lambda>(txt, st''). Returned (HString txt, c', st'')))"

text \<open>
  Modelled from the spec: \<open>Number\<close> is declared in runtime.h, which is not among the sources;
  the spec gives it an i64. Signed overflow is undefined behaviour in C++.
\<close>

definition Own_Number :: "int \<Rightarrow> closure \<Rightarrow> state \<Rightarrow> (holder \<times> closure \<times> state) outcome" where
  "Own_Number v c st =
     (if - (2 ^ 63) \<le> v \<and> v < 2 ^ 63 then Returned (HNumber v, c, st)
      else Raised (UndefinedBehaviour ''signed integer overflow''))"

text \<open>C++ integer division truncates towards zero.\<close>

definition cpp_div :: "int \<Rightarrow> int \<Rightarrow> int" where
  "cpp_div a b = (if (a < 0) = (b < 0) then \<bar>a\<bar> div \<bar>b\<bar> else - (\<bar>a\<bar> div \<bar>b\<bar>))"

definition Add_Execute ::
  "class_table \<Rightarrow> executor \<Rightarrow> statement \<Rightarrow> statement \<Rightarrow> closure \<Rightarrow> state
     \<Rightarrow> (holder \<times> closure \<times> state) outcome" where
  "Add_Execute ct exec left right c st =
     obind (exec left c st)
       (\<lambda>(l, c1, st1).
          obind (exec right c1 st1)
            (\<lambda>(r, c2, st2).
               case l of
                 HNumber a \<Rightarrow>
                   (case r of HNumber b \<Rightarrow> Own_Number (a + b) c2 st2
                    | _ \<Rightarrow> Raised (RuntimeError ''invalid add operation''))
               | HString a \<Rightarrow>
                   (case r of HString b \<Rightarrow> Returned (HString (a @ b), c2, st2)
                    | _ \<Rightarrow> Raised (RuntimeError ''invalid add operation''))
               | HInstance a \<Rightarrow>
                   if HasMethod (class_of ct st2 a) ''__add__'' 1
                   then obind (Call ct exec a ''__add__'' [r] st2) (\<lambda>(v, st3). Returned (v, c2, st3))
                   else Raised (RuntimeError ''invalid add operation'')
               | _ \<Rightarrow> Raised (RuntimeError ''invalid add operation'')))"

text \<open>
  The operands of \<open>Sub\<close>, \<open>Mult\<close> and \<open>Div\<close>. The source keeps a \<open>Number*\<close> taken from the
  temporary holder each operand returns and reads it after the holder is gone. Where the
  holder was the only owner of its number (the operand is itself an arithmetic node) the
  read is of freed storage; the model reads the value the holder held.
\<close>

definition number_operands ::
  "executor \<Rightarrow> statement \<Rightarrow> statement \<Rightarrow> closure \<Rightarrow> state
     \<Rightarrow> ((int \<times> int) option \<times> closure \<times> state) outcome" where
  "number_operands exec left right c st =
     obind (exec left c st)
       (\<lambda>(l, c1, st1).
          obind (exec right c1 st1)
            (\<lambda>(r, c2, st2).
               case (l, r) of
                 (HNumber a, HNumber b) \<Rightarrow> Returned (Some (a, b), c2, st2)
               | _ \<Rightarrow> Returned (None, c2, st2)))"

definition Sub_Execute ::
  "executor \<Rightarrow> statement \<Rightarrow> statement \<Rightarrow> closure \<Rightarrow> state \<Rightarrow> (holder \<times> closure \<times> state) outcome" where
  "Sub_Execute exec left right c st =
     obind (number_operands exec left right c st)
       (\<lambda>(ns, c', st'). case ns of
            Some (a, b) \<Rightarrow> Own_Number (a - b) c' st'
          | None \<Rightarrow> Raised (RuntimeError ''invalid subtract operation''))"

definition Mult_Execute ::
  "executor \<Rightarrow> statement \<Rightarrow> statement \<Rightarrow> closure \<Rightarrow> state \<Rightarrow> (holder \<times> closure \<times> state) outcome" where
  "Mult_Execute exec left right c st =
     obind (number_operands exec left right c st)
       (\<lambda>(ns, c', st'). case ns of
            Some (a, b) \<Rightarrow> Own_Number (a * b) c' st'
          | None \<Rightarrow> Raised (RuntimeError ''invalid mult operation''))"

definition Div_Execute ::
  "executor \<Rightarrow> statement \<Rightarrow> statement \<Rightarrow> closure \<Rightarrow> state \<Rightarrow> (holder \<times> closure \<times> state) outcome" where
  "Div_Execute exec left right c st =
     obind (number_operands exec left right c st)
       (\<lambda>(ns, c', st'). case ns of
            Some (a, b) \<Rightarrow>
              if b \<noteq> 0 then Own_Number (cpp_div a b) c' st'
              else Raised (RuntimeError ''division by zero'')
          | None \<Rightarrow> Raised (RuntimeError ''invalid div operation''))"

fun Compound_Execute ::
  "executor \<Rightarrow> statement list \<Rightarrow> closure \<Rightarrow> state \<Rightarrow> (holder \<times> closure \<times> state) outcome" where
  "Compound_Execute exec [] c st = Returned (HNone, c, st)"
| "Compound_Execute exec (s # ss) c st =
     obind (exec s c st)
       (\<lambda>(v, c', st').
          if c' ''returned_value'' \<noteq> None then Returned (HNone, c', st')
          else Compound_Execute exec ss c' st')"

definition Return_Execute ::
  "executor \<Rightarrow> statement \<Rightarrow> closure \<Rightarrow> state \<Rightarrow> (holder \<times> closure \<times> state) outcome" where
  "Return_Execute exec s c st =
     obind (exec s c st) (\<lambda>(v, c', st'). Returned (HNone, c'(''returned_value'' \<mapsto> v), st'))"

definition ClassDefinition_Execute ::
  "class_table \<Rightarrow> nat \<Rightarrow> closure \<Rightarrow> state \<Rightarrow> (holder \<times> closure \<times> state) outcome" where
  "ClassDefinition_Execute ct k c st = Returned (HNone, c(GetName (ct k) \<mapsto> HClass k), st)"

definition FieldAssignment_Execute ::
  "executor \<Rightarrow> string list \<Rightarrow> string \<Rightarrow> statement \<Rightarrow> closure \<Rightarrow> state
     \<Rightarrow> (holder \<times> closure \<times> state) outcome" where
  "FieldAssignment_Execute exec object field_name rv c st =
     obind (VariableValue_Execute object c st)
       (\<lambda>(receiver, c1, st1).
          case receiver of
            HInstance a \<Rightarrow>
              obind (exec rv c1 st1)
                (\<lambda>(v, c2, st2).
                   Returned (v, c2,
                     st2\<lparr>heap := (heap st2)
                       (a := (heap st2 a)\<lparr>Fields := (Fields (heap st2 a))(field_name \<mapsto> v)\<rparr>)\<rparr>))
          | _ \<Rightarrow> Raised (UndefinedBehaviour ''null pointer dereference''))"

definition IfElse_Execute ::
  "executor \<Rightarrow> statement \<Rightarrow> statement \<Rightarrow> statement option \<Rightarrow> closure \<Rightarrow> state
     \<Rightarrow> (holder \<times> closure \<times> state) outcome" where
  "IfElse_Execute exec condition if_body else_body c st =
     obind (exec condition c st)
       (\<lambda>(v, c1, st1).
          if IsTrue v
          then obind (exec if_body c1 st1) (\<lambda>(r, c2, st2). Returned (HNone, c2, st2))
          else case else_body of
                 Some e \<Rightarrow> obind (exec e c1 st1) (\<lambda>(r, c2, st2). Returned (HNone, c2, st2))
               | None \<Rightarrow> Returned (HNone, c1, st1))"

definition Or_Execute ::
  "executor \<Rightarrow> statement \<Rightarrow> statement \<Rightarrow> closure \<Rightarrow> state \<Rightarrow> (holder \<times> closure \<times> state) outcome" where
  "Or_Execute exec left right c st =
     obind (exec left c st)
       (\<lambda>(l, c1, st1).
          if \<not> IsTrue l
          then obind (exec right c1 st1) (\<lambda>(r, c2, st2). Returned (HBool (IsTrue r), c2, st2))
          else Returned (HBool True, c1, st1))"

definition And_Execute ::
  "executor \<Rightarrow> statement \<Rightarrow> statement \<Rightarrow> closure \<Rightarrow> state \<Rightarrow> (holder \<times> closure \<times> state) outcome" where
  "And_Execute exec left right c st =
     obind (exec left c st)
       (\<lambda>(l, c1, st1).
          if IsTrue l
          then obind (exec right c1 st1) (\<lambda>(r, c2, st2). Returned (HBool (IsTrue r), c2, st2))
          else Returned (HBool False, c1, st1))"

definition Not_Execute ::
  "executor \<Rightarrow> statement \<Rightarrow> closure \<Rightarrow> state \<Rightarrow> (holder \<times> closure \<times> state) outcome" where
  "Not_Execute exec argument c st =
     obind (exec argument c st) (\<lambda>(v, c', st'). Returned (HBool (\<not> IsTrue v), c', st'))"

text \<open>
  C++ leaves the order in which the two arguments of \<open>cmp_\<close> are evaluated unspecified;
  the model evaluates the left operand first.
\<close>

definition Comparison_Execute ::
  "class_table \<Rightarrow> executor \<Rightarrow> comparator \<Rightarrow> statement \<Rightarrow> statement \<Rightarrow> closure \<Rightarrow> state
     \<Rightarrow> (holder \<times> closure \<times> state) outcome" where
  "Comparison_Execute ct exec cmp left right c st =
     obind (exec left c st)
       (\<lambda>(l, c1, st1).
          obind (exec right c1 st1)
            (\<lambda>(r, c2, st2).
               obind (apply_comparator cmp ct exec l r st2)
                 (\<lambda>(b, st3). Returned (HBool b, c2, st3))))"

text \<open>
  \<open>ObjectHolder::Own(ClassInstance(class_))\<close>: a new instance at an unused address. The
  model never destroys an instance, and a holder made by \<open>Share\<close> is the same value as an
  owning one. In the source an instance lives only as long as an owning holder does: a
  \<open>self\<close> alias that outlives the last owner dangles there and is a live \<open>HInstance\<close> here.
\<close>

definition Own_ClassInstance :: "nat \<Rightarrow> state \<Rightarrow> nat \<times> state" where
  "Own_ClassInstance k st =
     (next_addr st,
      st\<lparr>heap := (heap st)(next_addr st := \<lparr>cls = k, Fields = Map.empty\<rparr>),
         next_addr := Suc (next_addr st)\<rparr>)"

definition NewInstance_Execute ::
  "class_table \<Rightarrow> executor \<Rightarrow> nat \<Rightarrow> statement list \<Rightarrow> closure \<Rightarrow> state
     \<Rightarrow> (holder \<times> closure \<times> state) outcome" where
  "NewInstance_Execute ct exec k args c st =
     (case Own_ClassInstance k st of
        (a, st0) \<Rightarrow>
          (case GetMethod (ct k) ''__init__'' of
             None \<Rightarrow> Returned (HInstance a, c, st0)
           | Some method \<Rightarrow>
               if length (formal_params method) \<noteq> length args then Returned (HInstance a, c, st0)
               else obind (Execute_args exec args c st0)
                      (\<lambda>(actual_args, c1, st1).
                         obind (Call ct exec a ''__init__'' actual_args st1)
                           (\<lambda>(after_init, st2).
                              if after_init \<noteq> HNone then Returned (after_init, c1, st2)
                              else Returned (HInstance a, c1, st2)))))"

definition MethodBody_Execute ::
  "executor \<Rightarrow> statement \<Rightarrow> closure \<Rightarrow> state \<Rightarrow> (holder \<times> closure \<times> state) outcome" where
  "MethodBody_Execute exec body c st =
     obind (exec body c st)
       (\<lambda>(v, c', st'). case c' ''returned_value'' of
            Some r \<Rightarrow> Returned (r, c', st')
          | None \<Rightarrow> Returned (HNone, c', st'))"

text \<open>The virtual dispatch on the node.\<close>

fun Execute_node ::
  "class_table \<Rightarrow> executor \<Rightarrow> statement \<Rightarrow> closure \<Rightarrow> state \<Rightarrow> (holder \<times> closure \<times> state) outcome" where
  "Execute_node ct exec (Assignment var rv) c st = Assignment_Execute exec var rv c st"
| "Execute_node ct exec (VariableValue ids) c st = VariableValue_Execute ids c st"
| "Execute_node ct exec (Print args) c st = Print_Execute ct exec args c st"
| "Execute_node ct exec (MethodCall object method args) c st =
     MethodCall_Execute ct exec object method args c st"
| "Execute_node ct exec (Stringify argument) c st = Stringify_Execute ct exec argument c st"
| "Execute_node ct exec (Add l r) c st = Add_Execute ct exec l r c st"
| "Execute_node ct exec (Sub l r) c st = Sub_Execute exec l r c st"
| "Execute_node ct exec (Mult l r) c st = Mult_Execute exec l r c st"
| "Execute_node ct exec (Div l r) c st = Div_Execute exec l r c st"
| "Execute_node ct exec (Compound ss) c st = Compound_Execute exec ss c st"
| "Execute_node ct exec (Return s) c st = Return_Execute exec s c st"
| "Execute_node ct exec (ClassDefinition k) c st = ClassDefinition_Execute ct k c st"
| "Execute_node ct exec (FieldAssignment object field_name rv) c st =
     FieldAssignment_Execute exec object field_name rv c st"
| "Execute_node ct exec (IfElse condition if_body else_body) c st =
     IfElse_Execute exec condition if_body else_body c st"
| "Execute_node ct exec (Or l r) c st = Or_Execute exec l r c st"
| "Execute_node ct exec (And l r) c st = And_Execute exec l r c st"
| "Execute_node ct exec (NotOp argument) c st = Not_Execute exec argument c st"
| "Execute_node ct exec (Comparison cmp l r) c st = Comparison_Execute ct exec cmp l r c st"
| "Execute_node ct exec (NewInstance k args) c st = NewInstance_Execute ct exec k args c st"
| "Execute_node ct exec (MethodBody body) c st = MethodBody_Execute exec body c st"

text \<open>
  The evaluator recurses through method bodies, so a program may run forever. \<open>Execute\<close>
  carries a bound on the depth of nested \<open>Execute\<close> calls: \<open>Diverged\<close> is the outcome of a
  run that needs a deeper nesting than the bound allows.
\<close>

primrec Execute ::
  "class_table \<Rightarrow> nat \<Rightarrow> statement \<Rightarrow> closure \<Rightarrow> state \<Rightarrow> (holder \<times> closure \<times> state) outcome" where
  "Execute ct 0 = (\<lambda>s c st. Diverged)"
| "Execute ct (Suc n) = Execute_node ct (Execute ct n)"

definition ClassInstance_Call ::
  "class_table \<Rightarrow> nat \<Rightarrow> nat \<Rightarrow> string \<Rightarrow> holder list \<Rightarrow> state \<Rightarrow> (holder \<times> state) outcome" where
  "ClassInstance_Call ct n this method actual_args st = Call ct (Execute ct n) this method actual_args st"

section \<open>The lexer (lexer.cpp)\<close>

datatype token =
    TNumber int
  | TId string
  | TChar char
  | TString string
  | TClass | TReturn | TIf | TElse | TDef | TNewline | TPrint | TIndent | TDedent
  | TAnd | TOr | TNot | TEq | TNotEq | TLessOrEq | TGreaterOrEq | TNone | TTrue | TFalse
  | TEof

text \<open>\<open>LexerError\<close> with its message; \<open>std::stoi\<close> throws \<open>std::out_of_range\<close>.\<close>

datatype lexer_error = LexerError string | StoiOutOfRange

text \<open>
  The input stream is the list of the characters still to be read; \<open>peek\<close> and \<open>get\<close> yield
  \<open>EOF\<close> on the empty list, and \<open>putback\<close> of \<open>EOF\<close> changes nothing. A \<open>char\<close> that
  received \<open>EOF\<close> compares equal to \<open>EOF\<close>, and so does the byte 255 (\<open>char\<close> is signed).
\<close>

text \<open>
  Modelled from the spec: the fields \<open>current_indent_\<close> and \<open>diff_current_prev_indent_\<close> of
  \<open>Lexer\<close> are declared in lexer.h, which is not among the sources. The spec has them as
  the indent level and the pending indent delta, both 0 at the start, the delta negative
  for a dedent; they are integers here, and \<open>count_spaces / 2 - current_indent_\<close> is their
  difference.
\<close>

record Lexer =
  input :: string
  current_token :: token
  current_indent :: int
  diff_current_prev_indent :: int

abbreviation newline :: char where
  "newline \<equiv> CHR 0x0A"

definition peek :: "string \<Rightarrow> char option" where
  "peek s = (case s of [] \<Rightarrow> None | c # cs \<Rightarrow> Some c)"

definition is_EOF :: "char option \<Rightarrow> bool" where
  "is_EOF c = (c = None \<or> c = Some (CHR 0xFF))"

definition getline :: "string \<Rightarrow> string" where
  "getline s = drop 1 (dropWhile (\<lambda>c. c \<noteq> newline) s)"

definition IgnoreSpaces :: "string \<Rightarrow> string" where
  "IgnoreSpaces s = dropWhile (\<lambda>c. c = CHR '' '') s"

definition count_spaces :: "string \<Rightarrow> nat" where
  "count_spaces s = length (takeWhile (\<lambda>c. c = CHR '' '') s)"

text \<open>\<open>isdigit\<close> and \<open>isalpha\<close> in the C locale.\<close>

definition isdigit :: "char \<Rightarrow> bool" where
  "isdigit c = (c \<in> set ''0123456789'')"

definition isalpha :: "char \<Rightarrow> bool" where
  "isalpha c = (c \<in> set ''abcdefghijklmnopqrstuvwxyzABCDEFGHIJKLMNOPQRSTUVWXYZ'')"

text \<open>
  Modelled from the spec: \<open>comparison_symbols\<close> is declared in lexer.h, which is not among
  the sources; the spec lists the characters that may start a comparison.
\<close>

definition comparison_symbols :: "char set" where
  "comparison_symbols = {CHR ''='', CHR ''!'', CHR ''<'', CHR ''>''}"

text \<open>
  Modelled from the spec: \<open>special_symbols\<close> is declared in lexer.h, which is not among the
  sources. The functions that consult it take the table as their parameter \<open>special\<close>;
  \<open>spec_special_symbols\<close> is the set the spec lists in section 4.1.
\<close>

definition spec_special_symbols :: "char set" where
  "spec_special_symbols =
     {CHR ''+'', CHR ''-'', CHR ''*'', CHR ''/'', CHR ''('', CHR '')'', CHR '','', CHR ''.'', CHR '':''}"

text \<open>
  Modelled from the spec: \<open>keyword_to_token\<close> is declared in lexer.h, which is not among
  the sources; the spec lists the twelve keywords and their tokens.
\<close>

definition keyword_to_token :: "string \<rightharpoonup> token" where
  "keyword_to_token = map_of
     [(''class'', TClass), (''return'', TReturn), (''if'', TIf), (''else'', TElse),
      (''def'', TDef), (''print'', TPrint), (''and'', TAnd), (''or'', TOr), (''not'', TNot),
      (''None'', TNone), (''True'', TTrue), (''False'', TFalse)]"

subsection \<open>Layout resolution\<close>

function IgnoreEmptyRawsAndComments :: "Lexer \<Rightarrow> lexer_error + Lexer" where
  "IgnoreEmptyRawsAndComments lx =
     (if peek (IgnoreSpaces (input lx)) = Some newline
      then IgnoreEmptyRawsAndComments (lx\<lparr>input := drop 1 (IgnoreSpaces (input lx))\<rparr>)
      else if peek (IgnoreSpaces (input lx)) = Some (CHR ''#'')
      then IgnoreEmptyRawsAndComments (lx\<lparr>input := getline (IgnoreSpaces (input lx))\<rparr>)
      else if count_spaces (input lx) mod 2 = 1 then Inl (LexerError ''invalid indent'')
      else Inr (lx\<lparr>input := IgnoreSpaces (input lx),
                   diff_current_prev_indent := int (count_spaces (input lx) div 2) - current_indent lx,
                   current_indent := int (count_spaces (input lx) div 2)\<rparr>))"
  by pat_completeness auto
termination
proof (relation "measure (\<lambda>lx. length (input lx))")
  show "wf (measure (\<lambda>lx. length (input lx)))" by simp
next
  fix lx :: Lexer
  assume "peek (IgnoreSpaces (input lx)) = Some newline"
  then obtain cs where c: "IgnoreSpaces (input lx) = newline # cs"
    by (auto simp: peek_def split: list.splits)
  have "length (IgnoreSpaces (input lx)) \<le> length (input lx)"
    unfolding IgnoreSpaces_def by (rule length_dropWhile_le)
  with c show "(lx\<lparr>input := drop 1 (IgnoreSpaces (input lx))\<rparr>, lx) \<in> measure (\<lambda>lx. length (input lx))"
    by simp
next
  fix lx :: Lexer
  assume "peek (IgnoreSpaces (input lx)) = Some (CHR ''#'')"
  then obtain cs where c: "IgnoreSpaces (input lx) = CHR ''#'' # cs"
    by (auto simp: peek_def split: list.splits)
  have l: "length (IgnoreSpaces (input lx)) \<le> length (input lx)"
    unfolding IgnoreSpaces_def by (rule length_dropWhile_le)
  have "length (getline (CHR ''#'' # cs)) \<le> length cs"
    unfolding getline_def
    using length_dropWhile_le[of "\<lambda>c. c \<noteq> newline" "CHR ''#'' # cs"]
    by (cases "dropWhile (\<lambda>c. c \<noteq> newline) (CHR ''#'' # cs)") auto
  with c l show "(lx\<lparr>input := getline (IgnoreSpaces (input lx))\<rparr>, lx) \<in> measure (\<lambda>lx. length (input lx))"
    by simp
qed

declare IgnoreEmptyRawsAndComments.simps [simp del]

definition ParseIndentOrDedent :: "Lexer \<Rightarrow> lexer_error + Lexer" where
  "ParseIndentOrDedent lx =
     (if diff_current_prev_indent lx > 0
      then Inr (lx\<lparr>diff_current_prev_indent := diff_current_prev_indent lx - 1, current_token := TIndent\<rparr>)
      else if diff_current_prev_indent lx < 0
      then Inr (lx\<lparr>diff_current_prev_indent := diff_current_prev_indent lx + 1, current_token := TDedent\<rparr>)
      else Inl (LexerError ''no indent or dedent''))"

subsection \<open>Tokens\<close>

definition stoi :: "string \<Rightarrow> int" where
  "stoi number = foldl (\<lambda>a d. 10 * a + (of_char d - 48)) 0 number"

definition ParseNumber :: "char set \<Rightarrow> string \<Rightarrow> lexer_error + (token \<times> string)" where
  "ParseNumber special s =
     (case s of
        [] \<Rightarrow> Inl (LexerError ''expected number'')
      | c # cs \<Rightarrow>
          if \<not> isdigit c then Inl (LexerError ''expected number'')
          else if \<not> is_EOF (peek (dropWhile isdigit s))
                  \<and> peek (dropWhile isdigit s) \<noteq> Some (CHR '' '')
                  \<and> peek (dropWhile isdigit s) \<noteq> Some newline
                  \<and> the (peek (dropWhile isdigit s)) \<notin> special
          then Inl (LexerError ''expected space or new line or end of file or special symbol'')
          else if stoi (takeWhile isdigit s) > 2147483647 then Inl StoiOutOfRange
          else Inr (TNumber (stoi (takeWhile isdigit s)), dropWhile isdigit s))"

text \<open>The loop of \<open>ParseStringConstant\<close>, after the opening quote.\<close>

fun string_loop :: "char \<Rightarrow> string \<Rightarrow> string \<Rightarrow> lexer_error + (token \<times> string)" where
  "string_loop q [] str = Inl (LexerError ''expected closing quote'')"
| "string_loop q (c # cs) str =
     (if c \<noteq> q \<and> c \<noteq> CHR 0x5C then string_loop q cs (str @ [c])
      else if c = CHR 0x5C
      then (case cs of
              [] \<Rightarrow> string_loop q [] (str @ [CHR 0xFF])
            | d # ds \<Rightarrow>
                string_loop q ds
                  (str @ [if d = CHR ''t'' then CHR 0x09 else if d = CHR ''n'' then newline else d]))
      else Inr (TString str, cs))"

definition ParseStringConstant :: "string \<Rightarrow> lexer_error + (token \<times> string)" where
  "ParseStringConstant s =
     (case s of
        [] \<Rightarrow> Inl (LexerError ''expected opening qoute'')
      | q # cs \<Rightarrow>
          if q \<noteq> CHR 0x27 \<and> q \<noteq> CHR 0x22 then Inl (LexerError ''expected opening qoute'')
          else string_loop q cs [])"

definition ident_char :: "char \<Rightarrow> bool" where
  "ident_char c = (c = CHR ''_'' \<or> isdigit c \<or> isalpha c)"

definition ParseName :: "string \<Rightarrow> lexer_error + (token \<times> string)" where
  "ParseName s =
     (case s of
        [] \<Rightarrow> Inl (LexerError ''invalid keyword or id'')
      | c # cs \<Rightarrow>
          if \<not> isalpha c \<and> c \<noteq> CHR ''_'' then Inl (LexerError ''invalid keyword or id'')
          else (case keyword_to_token (c # takeWhile ident_char cs) of
                  Some t \<Rightarrow> Inr (t, dropWhile ident_char cs)
                | None \<Rightarrow> Inr (TId (c # takeWhile ident_char cs), dropWhile ident_char cs)))"

text \<open>Two characters are read; at the end of the input \<open>get\<close> yields the byte 255.\<close>

definition ParseComparisonOperand :: "string \<Rightarrow> lexer_error + (token \<times> string)" where
  "ParseComparisonOperand s =
     (let operand = take 2 (s @ [CHR 0xFF, CHR 0xFF]) in
      if operand = ''=='' then Inr (TEq, drop 2 s)
      else if operand = ''!='' then Inr (TNotEq, drop 2 s)
      else if operand = ''<='' then Inr (TLessOrEq, drop 2 s)
      else if operand = ''>='' then Inr (TGreaterOrEq, drop 2 s)
      else Inl (LexerError ''expected comparison operand''))"

definition emit :: "Lexer \<Rightarrow> lexer_error + (token \<times> string) \<Rightarrow> lexer_error + Lexer" where
  "emit lx r = (case r of Inl e \<Rightarrow> Inl e | Inr (t, s) \<Rightarrow> Inr (lx\<lparr>input := s, current_token := t\<rparr>))"


text \<open>
  What one round of layout resolution does, and that it never stops in front of a space, a
  newline or a comment; the latter makes the recursive call of \<open>NextToken\<close> well-founded.
\<close>

lemma IgnoreEmpty_newline:
  "peek (IgnoreSpaces (input lx)) = Some newline \<Longrightarrow>
   IgnoreEmptyRawsAndComments lx
     = IgnoreEmptyRawsAndComments (lx\<lparr>input := drop 1 (IgnoreSpaces (input lx))\<rparr>)"
  by (subst IgnoreEmptyRawsAndComments.simps) simp

lemma IgnoreEmpty_comment:
  "peek (IgnoreSpaces (input lx)) = Some (CHR ''#'') \<Longrightarrow>
   IgnoreEmptyRawsAndComments lx
     = IgnoreEmptyRawsAndComments (lx\<lparr>input := getline (IgnoreSpaces (input lx))\<rparr>)"
  by (subst IgnoreEmptyRawsAndComments.simps) simp

lemma IgnoreEmpty_code:
  "peek (IgnoreSpaces (input lx)) \<noteq> Some newline \<Longrightarrow>
   peek (IgnoreSpaces (input lx)) \<noteq> Some (CHR ''#'') \<Longrightarrow>
   IgnoreEmptyRawsAndComments lx
     = (if count_spaces (input lx) mod 2 = 1 then Inl (LexerError ''invalid indent'')
        else Inr (lx\<lparr>input := IgnoreSpaces (input lx),
                   diff_current_prev_indent := int (count_spaces (input lx) div 2) - current_indent lx,
                   current_indent := int (count_spaces (input lx) div 2)\<rparr>))"
  by (subst IgnoreEmptyRawsAndComments.simps) simp

lemma peek_IgnoreSpaces: "peek (IgnoreSpaces s) \<noteq> Some (CHR '' '')"
proof (cases "dropWhile (\<lambda>c. c = CHR '' '') s")
  case Nil
  show ?thesis unfolding IgnoreSpaces_def peek_def Nil by simp
next
  case (Cons x xs)
  with hd_dropWhile[of "\<lambda>c. c = CHR '' ''" s] have "x \<noteq> CHR '' ''" by simp
  then show ?thesis unfolding IgnoreSpaces_def peek_def Cons by simp
qed

lemma IgnoreEmptyRawsAndComments_peek:
  "IgnoreEmptyRawsAndComments lx = Inr lx' \<Longrightarrow>
     peek (input lx') \<noteq> Some (CHR ''#'') \<and> peek (input lx') \<noteq> Some newline
     \<and> peek (input lx') \<noteq> Some (CHR '' '')"
proof (induction lx rule: IgnoreEmptyRawsAndComments.induct)
  case (1 lx)
  show ?case
  proof (cases "peek (IgnoreSpaces (input lx)) = Some newline")
    case True
    from "1.prems" IgnoreEmpty_newline[OF True]
    have "IgnoreEmptyRawsAndComments (lx\<lparr>input := drop 1 (IgnoreSpaces (input lx))\<rparr>) = Inr lx'"
      by (simp only:)
    from "1.IH"(1)[OF True this] show ?thesis .
  next
    case False
    show ?thesis
    proof (cases "peek (IgnoreSpaces (input lx)) = Some (CHR ''#'')")
      case True
      from "1.prems" IgnoreEmpty_comment[OF True]
      have "IgnoreEmptyRawsAndComments (lx\<lparr>input := getline (IgnoreSpaces (input lx))\<rparr>) = Inr lx'"
        by (simp only:)
      from "1.IH"(2)[OF False True this] show ?thesis .
    next
      case hash: False
      from "1.prems" IgnoreEmpty_code[OF False hash] have i: "input lx' = IgnoreSpaces (input lx)"
        by (auto split: if_splits)
      with False hash peek_IgnoreSpaces[of "input lx"] show ?thesis by simp
    qed
  qed
qed

subsection \<open>\<open>NextToken\<close>\<close>

function NextToken :: "char set \<Rightarrow> Lexer \<Rightarrow> lexer_error + Lexer" where
  "NextToken special lx =
     (if current_token lx = TEof then Inr lx
      else case (if current_token lx = TNewline then IgnoreEmptyRawsAndComments lx else Inr lx) of
        Inl e \<Rightarrow> Inl e
      | Inr lx1 \<Rightarrow>
          if diff_current_prev_indent lx1 \<noteq> 0 then ParseIndentOrDedent lx1
          else (case IgnoreSpaces (input lx1) of
            [] \<Rightarrow>
              if current_token lx1 = TNewline \<or> current_token lx1 = TIndent \<or> current_token lx1 = TDedent
              then Inr (lx1\<lparr>input := [], current_token := TEof\<rparr>)
              else Inr (lx1\<lparr>input := [], current_token := TNewline\<rparr>)
          | c # cs \<Rightarrow>
              if isdigit c then emit lx1 (ParseNumber special (c # cs))
              else if c = CHR 0x27 \<or> c = CHR 0x22 then emit lx1 (ParseStringConstant (c # cs))
              else if c = CHR 0xFF then
                if current_token lx1 = TNewline \<or> current_token lx1 = TIndent \<or> current_token lx1 = TDedent
                then Inr (lx1\<lparr>input := cs, current_token := TEof\<rparr>)
                else Inr (lx1\<lparr>input := cs, current_token := TNewline\<rparr>)
              else if c = newline then Inr (lx1\<lparr>input := cs, current_token := TNewline\<rparr>)
              else if c = CHR ''#'' then
                (case IgnoreEmptyRawsAndComments (lx1\<lparr>input := getline cs\<rparr>) of
                   Inl e \<Rightarrow> Inl e
                 | Inr lx2 \<Rightarrow>
                     if peek (input lx2) = Some (CHR ''#'') then NextToken special lx2
                     else if is_EOF (peek (input lx2)) then Inr (lx2\<lparr>current_token := TEof\<rparr>)
                     else Inr (lx2\<lparr>current_token := TNewline\<rparr>))
              else if c = CHR ''='' \<and> peek cs \<noteq> Some (CHR ''='')
              then Inr (lx1\<lparr>input := cs, current_token := TChar (CHR ''='')\<rparr>)
              else if c \<in> comparison_symbols \<and> peek cs = Some (CHR ''='')
              then emit lx1 (ParseComparisonOperand (c # cs))
              else if c \<in> special then Inr (lx1\<lparr>input := cs, current_token := TChar c\<rparr>)
              else if isalpha c \<or> c = CHR ''_'' then emit lx1 (ParseName (c # cs))
              else Inl (LexerError ''parsing error'')))"
  by pat_completeness auto
termination
  by (relation "{}") (auto dest: IgnoreEmptyRawsAndComments_peek)

declare NextToken.simps [simp del]

function IgnoreInitialComments :: "string \<Rightarrow> string" where
  "IgnoreInitialComments s =
     (if peek (IgnoreSpaces s) \<noteq> Some (CHR ''#'') then IgnoreSpaces s
      else IgnoreInitialComments (getline (IgnoreSpaces s)))"
  by pat_completeness auto
termination
proof (relation "measure length")
  show "wf (measure length)" by simp
next
  fix s :: string
  assume "\<not> peek (IgnoreSpaces s) \<noteq> Some (CHR ''#'')"
  then obtain cs where c: "IgnoreSpaces s = CHR ''#'' # cs"
    by (auto simp: peek_def split: list.splits)
  have l: "length (IgnoreSpaces s) \<le> length s"
    unfolding IgnoreSpaces_def by (rule length_dropWhile_le)
  have "length (getline (CHR ''#'' # cs)) \<le> length cs"
    unfolding getline_def
    using length_dropWhile_le[of "\<lambda>c. c \<noteq> newline" "CHR ''#'' # cs"]
    by (cases "dropWhile (\<lambda>c. c \<noteq> newline) (CHR ''#'' # cs)") auto
  with c l show "(getline (IgnoreSpaces s), s) \<in> measure length" by simp
qed

declare IgnoreInitialComments.simps [simp del]

text \<open>The constructor \<open>Lexer::Lexer\<close>.\<close>

definition Lexer_init :: "char set \<Rightarrow> string \<Rightarrow> lexer_error + Lexer" where
  "Lexer_init special s =
     NextToken special
       \<lparr>input = IgnoreInitialComments s, current_token = TNewline,
        current_indent = 0, diff_current_prev_indent = 0\<rparr>"

text \<open>\<open>k\<close> calls of \<open>NextToken\<close>: the tokens they return and the lexer they leave.\<close>

fun NextTokens :: "char set \<Rightarrow> nat \<Rightarrow> Lexer \<Rightarrow> lexer_error + (token list \<times> Lexer)" where
  "NextTokens special 0 lx = Inr ([], lx)"
| "NextTokens special (Suc k) lx =
     (case NextToken special lx of
        Inl e \<Rightarrow> Inl e
      | Inr lx' \<Rightarrow>
          (case NextTokens special k lx' of
             Inl e \<Rightarrow> Inl e
           | Inr (ts, lx'') \<Rightarrow> Inr (current_token lx' # ts, lx'')))"

section \<open>Auxiliary notions and example programs\<close>

text \<open>An executor keeps keys when no run of it removes a name from the closure.\<close>

definition keeps_keys :: "executor \<Rightarrow> bool" where
  "keeps_keys exec = (\<forall>s c st v c' st'. exec s c st = Returned (v, c', st') \<longrightarrow> dom c \<subseteq> dom c')"

text \<open>
  A state with one instance of class 0 at address 0, and a class with two methods:
  \<open>rebind\<close> assigns its argument to \<open>self\<close>, \<open>get\<close> evaluates to its argument.
\<close>

definition init_state :: state where
  "init_state = \<lparr>heap = (\<lambda>a. \<lparr>cls = 0, Fields = Map.empty\<rparr>), next_addr = 1, out = []\<rparr>"

definition rebind_method :: Method where
  "rebind_method = Method ''rebind'' [''x''] (Compound [Assignment ''self'' (VariableValue [''x''])])"

definition get_method :: Method where
  "get_method = Method ''get'' [''x''] (VariableValue [''x''])"

definition example_class :: Class where
  "example_class = Class ''A'' [rebind_method, get_method] None"


text \<open>
  A class whose \<open>__init__\<close> takes no argument and returns nothing, a class whose \<open>__str__\<close>
  takes one argument, a class whose \<open>__str__\<close> takes none and returns the string \<open>True\<close>,
  a class whose \<open>__str__\<close> returns a boolean, and a class whose method \<open>peek\<close> reads the name
  \<open>secret\<close>; \<open>instance_state k\<close> holds instances of
  class \<open>k\<close>.
\<close>

definition init_class :: Class where
  "init_class = Class ''P'' [Method ''__init__'' [] (MethodBody (Compound []))] None"

definition str1_class :: Class where
  "str1_class = Class ''Q'' [Method ''__str__'' [''x''] (VariableValue [''x''])] None"

definition str_class :: Class where
  "str_class = Class ''R'' [Method ''__str__'' [] (Stringify (NotOp (VariableValue [''self''])))] None"

definition strbool_class :: Class where
  "strbool_class = Class ''S'' [Method ''__str__'' [] (NotOp (VariableValue [''self'']))] None"

definition peek_class :: Class where
  "peek_class = Class ''T'' [Method ''peek'' [] (VariableValue [''secret''])] None"

definition example_classes :: class_table where
  "example_classes k =
     (if k = 1 then init_class else if k = 2 then str1_class else if k = 3 then str_class
      else if k = 4 then strbool_class else if k = 5 then peek_class else example_class)"

definition instance_state :: "nat \<Rightarrow> state" where
  "instance_state k = \<lparr>heap = (\<lambda>a. \<lparr>cls = k, Fields = Map.empty\<rparr>), next_addr = 1, out = []\<rparr>"

text \<open>
  A blank line is a line of spaces, or of spaces and a comment, with its newline. Layout
  resolution stops in front of \<open>rest\<close> when \<open>rest\<close> is empty or starts with a character
  that is no space, no newline and no \<open>#\<close>.
\<close>

definition is_blank_line :: "string \<Rightarrow> bool" where
  "is_blank_line l =
     (l \<noteq> [] \<and> last l = newline \<and> newline \<notin> set (butlast l) \<and>
      (IgnoreSpaces (butlast l) = [] \<or> peek (IgnoreSpaces (butlast l)) = Some (CHR ''#'')))"

definition starts_code :: "string \<Rightarrow> bool" where
  "starts_code rest =
     (peek rest \<noteq> Some (CHR '' '') \<and> peek rest \<noteq> Some newline \<and> peek rest \<noteq> Some (CHR ''#''))"

definition layout_token :: "int \<Rightarrow> nat \<Rightarrow> token" where
  "layout_token l n = (if l < int n then TIndent else TDedent)"

text \<open>The table of section 4.1 of the spec with \<open><\<close> and \<open>>\<close> added, as section 6 has them.\<close>

definition example_special :: "char set" where
  "example_special = insert (CHR ''<'') (insert (CHR ''>'') spec_special_symbols)"

text \<open>The layout resolution that \<open>NextToken\<close> runs first when the last token was a newline.\<close>

definition resolve :: "Lexer \<Rightarrow> lexer_error + Lexer" where
  "resolve lx = (if current_token lx = TNewline then IgnoreEmptyRawsAndComments lx else Inr lx)"

text \<open>A lexer whose last token is \<open>t\<close>, at indent level \<open>l\<close>, with nothing pending, in front of \<open>s\<close>.\<close>

definition lexer_after :: "token \<Rightarrow> int \<Rightarrow> string \<Rightarrow> Lexer" where
  "lexer_after t l s = \<lparr>input = s, current_token = t, current_indent = l, diff_current_prev_indent = 0\<rparr>"

text \<open>A call of \<open>NextToken\<close> that failed, or returned a token other than \<open>Indent\<close> and \<open>Dedent\<close>.\<close>

definition no_layout :: "lexer_error + Lexer \<Rightarrow> bool" where
  "no_layout r = (case r of Inl e \<Rightarrow> True | Inr lx' \<Rightarrow> current_token lx' \<noteq> TIndent \<and> current_token lx' \<noteq> TDedent)"


text \<open>
  The tokens of an input: the token the constructor leaves and those of the next \<open>k\<close> calls
  of \<open>NextToken\<close>.
\<close>

definition tokens_of :: "char set \<Rightarrow> nat \<Rightarrow> string \<Rightarrow> lexer_error + token list" where
  "tokens_of special k s =
     (case Lexer_init special s of
        Inl e \<Rightarrow> Inl e
      | Inr lx \<Rightarrow>
          (case NextTokens special k lx of
             Inl e \<Rightarrow> Inl e
           | Inr (ts, lx') \<Rightarrow> Inr (current_token lx # ts)))"

section \<open>Properties of the evaluator\<close>


lemma obind_Returned:
  "obind x f = Returned r \<longleftrightarrow> (\<exists>v. x = Returned v \<and> f v = Returned r)"
  by (cases x) (simp_all add: obind_def)

lemma obind_simps [simp]:
  "obind Diverged f = Diverged"
  "obind (Raised e) f = Raised e"
  "obind (Returned v) f = f v"
  by (simp_all add: obind_def)


lemma keeps_keysD: "keeps_keys exec \<Longrightarrow> exec s c st = Returned (v, c', st') \<Longrightarrow> dom c \<subseteq> dom c'"
  unfolding keeps_keys_def by blast

lemma VariableValue_loop_closure:
  "VariableValue_loop ids object c st = Returned (v, c', st') \<Longrightarrow> c' = c"
  by (induction ids object c st rule: VariableValue_loop.induct)
     (auto split: holder.splits option.splits)

lemma VariableValue_Execute_closure:
  "VariableValue_Execute ids c st = Returned (v, c', st') \<Longrightarrow> c' = c"
  by (auto simp: VariableValue_Execute_def split: list.splits option.splits dest: VariableValue_loop_closure)

lemma Execute_args_keys:
  "keeps_keys exec \<Longrightarrow> Execute_args exec args c st = Returned (vs, c', st') \<Longrightarrow> dom c \<subseteq> dom c'"
proof (induction args arbitrary: c st vs c' st')
  case Nil
  then show ?case by simp
next
  case (Cons a as)
  from Cons.prems(2) obtain v c1 st1 vs1 where
    a: "exec a c st = Returned (v, c1, st1)" and
    r: "Execute_args exec as c1 st1 = Returned (vs1, c', st')"
    by (auto simp: obind_Returned)
  from keeps_keysD[OF Cons.prems(1) a] Cons.IH[OF Cons.prems(1) r] show ?case by blast
qed

lemma Print_loop_keys:
  "keeps_keys exec \<Longrightarrow> Print_loop ct exec args c st = Returned (c', st') \<Longrightarrow> dom c \<subseteq> dom c'"
proof (induction args arbitrary: c st c' st')
  case Nil
  then show ?case by simp
next
  case (Cons a as)
  from Cons.prems(2) obtain v c1 st1 tx st2 where
    a: "exec a c st = Returned (v, c1, st1)" and
    r: "Print_loop ct exec as c1 (st2\<lparr>out := out st2 @ tx @ (if as \<noteq> [] then '' '' else [])\<rparr>) = Returned (c', st')"
    by (auto simp: obind_Returned)
  from keeps_keysD[OF Cons.prems(1) a] Cons.IH[OF Cons.prems(1) r] show ?case by blast
qed

lemma Compound_keys:
  "keeps_keys exec \<Longrightarrow> Compound_Execute exec ss c st = Returned (v, c', st') \<Longrightarrow> dom c \<subseteq> dom c'"
proof (induction ss arbitrary: c st v c' st')
  case Nil
  then show ?case by simp
next
  case (Cons s ss)
  from Cons.prems(2) obtain v1 c1 st1 where
    a: "exec s c st = Returned (v1, c1, st1)" and
    r: "(if c1 ''returned_value'' \<noteq> None then Returned (HNone, c1, st1)
          else Compound_Execute exec ss c1 st1) = Returned (v, c', st')"
    by (auto simp: obind_Returned)
  show ?case
  proof (cases "c1 ''returned_value'' \<noteq> None")
    case True
    with r have "c' = c1" by simp
    with keeps_keysD[OF Cons.prems(1) a] show ?thesis by simp
  next
    case False
    with r have "Compound_Execute exec ss c1 st1 = Returned (v, c', st')" by simp
    from keeps_keysD[OF Cons.prems(1) a] Cons.IH[OF Cons.prems(1) this] show ?thesis by blast
  qed
qed

lemma Own_Number_closure: "Own_Number v c st = Returned (r, c', st') \<Longrightarrow> c' = c"
  by (auto simp: Own_Number_def split: if_splits)

lemma number_operands_keys:
  assumes k: "keeps_keys exec" and r: "number_operands exec l r c st = Returned (ns, c', st')"
  shows "dom c \<subseteq> dom c'"
proof -
  from r obtain lv c1 st1 rv c2 st2 where
    a: "exec l c st = Returned (lv, c1, st1)" and b: "exec r c1 st1 = Returned (rv, c2, st2)" and
    d: "(case (lv, rv) of (HNumber a, HNumber b) \<Rightarrow> Returned (Some (a, b), c2, st2)
          | _ \<Rightarrow> Returned (None, c2, st2)) = Returned (ns, c', st')"
    by (auto simp: number_operands_def obind_Returned)
  from d have "c2 = c'" by (cases lv; cases rv) auto
  with keeps_keysD[OF k a] keeps_keysD[OF k b] show ?thesis by blast
qed

lemma Execute_node_keys:
  assumes k: "keeps_keys exec"
  shows "keeps_keys (Execute_node ct exec)"
  unfolding keeps_keys_def
proof (intro allI impI)
  fix s c st v c' st'
  assume r: "Execute_node ct exec s c st = Returned (v, c', st')"
  note kd = keeps_keysD[OF k]
  show "dom c \<subseteq> dom c'"
  proof (cases s)
    case (Assignment var rv)
    with r obtain c1 where a: "exec rv c st = Returned (v, c1, st')" and b: "c' = c1(var \<mapsto> v)"
      by (auto simp: Assignment_Execute_def obind_Returned)
    from kd[OF a] b show ?thesis by auto
  next
    case (VariableValue ids)
    with r show ?thesis by (auto dest: VariableValue_Execute_closure)
  next
    case (Print args)
    with r show ?thesis
      by (auto simp: Print_Execute_def obind_Returned dest: Print_loop_keys[OF k])
  next
    case (MethodCall object mname args)
    with r obtain vs c1 st1 rc c2 st2 where
      a: "Execute_args exec args c st = Returned (vs, c1, st1)" and
      b: "exec object c1 st1 = Returned (rc, c2, st2)" and
      d: "(case rc of HInstance a \<Rightarrow>
             obind (Call ct exec a mname vs st2) (\<lambda>(r, st3). Returned (r, c2, st3))
           | _ \<Rightarrow> Raised (UndefinedBehaviour ''null pointer dereference'')) = Returned (v, c', st')"
      by (auto simp: MethodCall_Execute_def obind_Returned)
    from d have "c2 = c'" by (cases rc) (auto simp: obind_Returned)
    with Execute_args_keys[OF k a] kd[OF b] show ?thesis by blast
  next
    case (Stringify argument)
    with r obtain ob c1 st1 where a: "exec argument c st = Returned (ob, c1, st1)" and
      d: "(if ob = HNone then Returned (HString ''None'', c1, st1)
          else if has_str0 ct st1 ob
          then (case ob of
                  HInstance a \<Rightarrow>
                    obind (Call ct exec a ''__str__'' [] st1)
                      (\<lambda>(r, st'').
                         obind (Object_Print ct exec r st'')
                           (\<lambda>(tx, st3). Returned (HString tx, c1, st3)))
                | _ \<Rightarrow> Raised (UndefinedBehaviour ''null pointer dereference''))
          else obind (Object_Print ct exec ob st1)
                 (\<lambda>(tx, st''). Returned (HString tx, c1, st''))) = Returned (v, c', st')"
      by (auto simp: Stringify_Execute_def obind_Returned)
    from d have "c1 = c'" by (cases ob) (auto simp: obind_Returned split: if_splits)
    with kd[OF a] show ?thesis by simp
  next
    case (Add l rr)
    with r obtain lv c1 st1 rv c2 st2 where
      a: "exec l c st = Returned (lv, c1, st1)" and b: "exec rr c1 st1 = Returned (rv, c2, st2)" and
      d: "(case lv of
                 HNumber a \<Rightarrow>
                   (case rv of HNumber b \<Rightarrow> Own_Number (a + b) c2 st2
                    | _ \<Rightarrow> Raised (RuntimeError ''invalid add operation''))
               | HString a \<Rightarrow>
                   (case rv of HString b \<Rightarrow> Returned (HString (a @ b), c2, st2)
                    | _ \<Rightarrow> Raised (RuntimeError ''invalid add operation''))
               | HInstance a \<Rightarrow>
                   if HasMethod (class_of ct st2 a) ''__add__'' 1
                   then obind (Call ct exec a ''__add__'' [rv] st2) (\<lambda>(v, st3). Returned (v, c2, st3))
                   else Raised (RuntimeError ''invalid add operation'')
               | _ \<Rightarrow> Raised (RuntimeError ''invalid add operation'')) = Returned (v, c', st')"
      by (auto simp: Add_Execute_def obind_Returned)
    from d have "c2 = c'"
      by (cases lv; cases rv) (auto simp: obind_Returned split: if_splits dest: Own_Number_closure)
    with kd[OF a] kd[OF b] show ?thesis by blast
  next
    case (Sub l rr)
    with r obtain ns st1 where a: "number_operands exec l rr c st = Returned (ns, c', st1)"
      by (auto simp: Sub_Execute_def obind_Returned split: option.splits if_splits
          dest!: Own_Number_closure)
    from number_operands_keys[OF k a] show ?thesis .
  next
    case (Mult l rr)
    with r obtain ns st1 where a: "number_operands exec l rr c st = Returned (ns, c', st1)"
      by (auto simp: Mult_Execute_def obind_Returned split: option.splits if_splits
          dest!: Own_Number_closure)
    from number_operands_keys[OF k a] show ?thesis .
  next
    case (Div l rr)
    with r obtain ns st1 where a: "number_operands exec l rr c st = Returned (ns, c', st1)"
      by (auto simp: Div_Execute_def obind_Returned split: option.splits if_splits
          dest!: Own_Number_closure)
    from number_operands_keys[OF k a] show ?thesis .
  next
    case (Compound ss)
    with r show ?thesis by (auto dest: Compound_keys[OF k])
  next
    case (Return x)
    with r obtain w c1 where a: "exec x c st = Returned (w, c1, st')"
      and b: "c' = c1(''returned_value'' \<mapsto> w)"
      by (auto simp: Return_Execute_def obind_Returned)
    from kd[OF a] b show ?thesis by auto
  next
    case (ClassDefinition k)
    with r show ?thesis by (auto simp: ClassDefinition_Execute_def)
  next
    case (FieldAssignment object field_name rv)
    with r obtain rc c1 st1 where
      a: "VariableValue_Execute object c st = Returned (rc, c1, st1)" and
      d: "(case rc of
            HInstance a \<Rightarrow>
              obind (exec rv c1 st1)
                (\<lambda>(v, c2, st2).
                   Returned (v, c2,
                     st2\<lparr>heap := (heap st2)
                       (a := (heap st2 a)\<lparr>Fields := (Fields (heap st2 a))(field_name \<mapsto> v)\<rparr>)\<rparr>))
          | _ \<Rightarrow> Raised (UndefinedBehaviour ''null pointer dereference'')) = Returned (v, c', st')"
      by (auto simp: FieldAssignment_Execute_def obind_Returned)
    from d obtain w st2 where b: "exec rv c1 st1 = Returned (w, c', st2)"
      by (cases rc) (auto simp: obind_Returned)
    from VariableValue_Execute_closure[OF a] kd[OF b] show ?thesis by simp
  next
    case (IfElse condition if_body else_body)
    with r obtain cv c1 st1 where
      a: "exec condition c st = Returned (cv, c1, st1)" and
      d: "(if IsTrue cv
          then obind (exec if_body c1 st1) (\<lambda>(r, c2, st2). Returned (HNone, c2, st2))
          else case else_body of
                 Some e \<Rightarrow> obind (exec e c1 st1) (\<lambda>(r, c2, st2). Returned (HNone, c2, st2))
               | None \<Rightarrow> Returned (HNone, c1, st1)) = Returned (v, c', st')"
      by (auto simp: IfElse_Execute_def obind_Returned)
    have "dom c1 \<subseteq> dom c'"
    proof (cases "IsTrue cv")
      case True
      with d obtain x z where "exec if_body c1 st1 = Returned (x, c', z)"
        by (auto simp: obind_Returned)
      from kd[OF this] show ?thesis .
    next
      case False
      show ?thesis
      proof (cases else_body)
        case None
        with d False show ?thesis by simp
      next
        case (Some e)
        with d False obtain x z where "exec e c1 st1 = Returned (x, c', z)"
          by (auto simp: obind_Returned)
        from kd[OF this] show ?thesis .
      qed
    qed
    with kd[OF a] show ?thesis by blast
  next
    case (Or l rr)
    with r obtain lv c1 st1 where
      a: "exec l c st = Returned (lv, c1, st1)" and
      d: "(if \<not> IsTrue lv
          then obind (exec rr c1 st1) (\<lambda>(r, c2, st2). Returned (HBool (IsTrue r), c2, st2))
          else Returned (HBool True, c1, st1)) = Returned (v, c', st')"
      by (auto simp: Or_Execute_def obind_Returned)
    have "dom c1 \<subseteq> dom c'"
    proof (cases "\<not> IsTrue lv")
      case True
      with d obtain x z where "exec rr c1 st1 = Returned (x, c', z)"
        by (auto simp: obind_Returned)
      from kd[OF this] show ?thesis .
    next
      case False
      with d show ?thesis by simp
    qed
    with kd[OF a] show ?thesis by blast
  next
    case (And l rr)
    with r obtain lv c1 st1 where
      a: "exec l c st = Returned (lv, c1, st1)" and
      d: "(if IsTrue lv
          then obind (exec rr c1 st1) (\<lambda>(r, c2, st2). Returned (HBool (IsTrue r), c2, st2))
          else Returned (HBool False, c1, st1)) = Returned (v, c', st')"
      by (auto simp: And_Execute_def obind_Returned)
    have "dom c1 \<subseteq> dom c'"
    proof (cases "IsTrue lv")
      case True
      with d obtain x z where "exec rr c1 st1 = Returned (x, c', z)"
        by (auto simp: obind_Returned)
      from kd[OF this] show ?thesis .
    next
      case False
      with d show ?thesis by simp
    qed
    with kd[OF a] show ?thesis by blast
  next
    case (NotOp argument)
    with r obtain w where a: "exec argument c st = Returned (w, c', st')"
      by (auto simp: Not_Execute_def obind_Returned)
    from kd[OF a] show ?thesis .
  next
    case (Comparison cmp l rr)
    with r obtain lv c1 st1 rv st2 where
      a: "exec l c st = Returned (lv, c1, st1)" and b: "exec rr c1 st1 = Returned (rv, c', st2)"
      by (auto simp: Comparison_Execute_def obind_Returned)
    from kd[OF a] kd[OF b] show ?thesis by blast
  next
    case (NewInstance k args)
    show ?thesis
    proof (cases "GetMethod (ct k) ''__init__''")
      case None
      with r NewInstance show ?thesis
        by (simp add: NewInstance_Execute_def Own_ClassInstance_def)
    next
      case (Some m)
      show ?thesis
      proof (cases "length (formal_params m) \<noteq> length args")
        case True
        with r NewInstance Some show ?thesis
          by (simp add: NewInstance_Execute_def Own_ClassInstance_def)
      next
        case False
        with r NewInstance Some obtain vs st0 st1 where
          "Execute_args exec args c st0 = Returned (vs, c', st1)"
          by (auto simp: NewInstance_Execute_def Own_ClassInstance_def obind_Returned
              split: if_splits)
        from Execute_args_keys[OF k this] show ?thesis .
      qed
    qed
  next
    case (MethodBody body)
    with r obtain w where a: "exec body c st = Returned (w, c', st')"
      by (auto simp: MethodBody_Execute_def obind_Returned split: option.splits)
    from kd[OF a] show ?thesis .
  qed
qed

lemma Execute_keeps_keys: "keeps_keys (Execute ct n)"
proof (induction n)
  case 0
  show ?case by (simp add: keeps_keys_def)
next
  case (Suc n)
  then show ?case by (simp add: Execute_node_keys)
qed

lemma HasMethod_iff:
  "HasMethod k method n \<longleftrightarrow> (\<exists>m. GetMethod k method = Some m \<and> length (formal_params m) = n)"
  by (auto simp: HasMethod_def split: option.splits)

lemma fold_upd_keys: "c x \<noteq> None \<Longrightarrow> fold (\<lambda>(p, a) m. m(p \<mapsto> a)) zs c x \<noteq> None"
  by (induction zs arbitrary: c) (auto split: prod.splits)

lemma bind_params_keys: "c x \<noteq> None \<Longrightarrow> bind_params ps as c x \<noteq> None"
  unfolding bind_params_def by (rule fold_upd_keys)


lemma Execute_numeral [simp]: "Execute ct (numeral k) = Execute_node ct (Execute ct (pred_numeral k))"
  by (simp add: numeral_eq_Suc)

lemma ex_get: "GetMethod example_class ''rebind'' = Some rebind_method"
  by (simp add: example_class_def name_to_method_index_def rebind_method_def get_method_def)

lemma ex_get2: "GetMethod example_class ''get'' = Some get_method"
  by (simp add: example_class_def name_to_method_index_def rebind_method_def get_method_def)


lemma Compound_append:
  "Compound_Execute exec xs c st = Returned (v1, c1, st1) \<Longrightarrow> c1 ''returned_value'' = None
   \<Longrightarrow> Compound_Execute exec (xs @ ys) c st = Compound_Execute exec ys c1 st1"
proof (induction xs arbitrary: c st)
  case Nil
  then show ?case by simp
next
  case (Cons x xs)
  from Cons.prems(1) obtain w c2 st2 where
    a: "exec x c st = Returned (w, c2, st2)" and
    d: "(if c2 ''returned_value'' \<noteq> None then Returned (HNone, c2, st2)
         else Compound_Execute exec xs c2 st2) = Returned (v1, c1, st1)"
    by (auto simp: obind_Returned)
  show ?case
  proof (cases "c2 ''returned_value'' \<noteq> None")
    case True
    with d Cons.prems(2) show ?thesis by auto
  next
    case False
    with d have "Compound_Execute exec xs c2 st2 = Returned (v1, c1, st1)" by simp
    from Cons.IH[OF this Cons.prems(2)] a False show ?thesis by simp
  qed
qed

lemma Compound_Execute_HNone:
  "Compound_Execute exec xs c st = Returned (v, c', st') \<Longrightarrow> v = HNone"
  by (induction xs arbitrary: c st) (auto simp: obind_Returned split: if_splits)

lemma Execute_Return_binds:
  "Execute ct n (Return e) c st = Returned (v, c', st') \<Longrightarrow> c' ''returned_value'' \<noteq> None"
  by (cases n) (auto simp: Return_Execute_def obind_Returned)

lemma Compound_Return_cut:
  "Compound_Execute (Execute ct n) (xs @ Return e # ys) c st
     = Compound_Execute (Execute ct n) (xs @ [Return e]) c st"
proof (induction xs arbitrary: c st)
  case Nil
  show ?case
  proof (cases "Execute ct n (Return e) c st")
    case (Returned r)
    obtain v c' st' where r: "r = (v, c', st')" by (cases r)
    from Execute_Return_binds[of ct n e c st v c' st'] Returned r show ?thesis by simp
  qed simp_all
next
  case (Cons x xs)
  show ?case
  proof (cases "Execute ct n x c st")
    case (Returned r)
    obtain v c' st' where r: "r = (v, c', st')" by (cases r)
    with Returned Cons.IH show ?thesis by simp
  qed simp_all
qed


lemma example_classes_simps:
  "example_classes 0 = example_class"
  "example_classes (Suc 0) = init_class"
  "example_classes 2 = str1_class"
  "example_classes 3 = str_class"
  "example_classes 4 = strbool_class"
  "example_classes 5 = peek_class"
  by (simp_all add: example_classes_def)

lemma init_get:
  "GetMethod init_class ''__init__'' = Some (Method ''__init__'' [] (MethodBody (Compound [])))"
  by (simp add: init_class_def name_to_method_index_def)

lemma ex_init: "GetMethod example_class ''__init__'' = None"
  by (simp add: example_class_def name_to_method_index_def rebind_method_def get_method_def)

lemma str1_get: "GetMethod str1_class ''__str__'' = Some (Method ''__str__'' [''x''] (VariableValue [''x'']))"
  by (simp add: str1_class_def name_to_method_index_def)

lemma str_get:
  "GetMethod str_class ''__str__''
     = Some (Method ''__str__'' [] (Stringify (NotOp (VariableValue [''self'']))))"
  by (simp add: str_class_def name_to_method_index_def)

lemma strbool_get:
  "GetMethod strbool_class ''__str__'' = Some (Method ''__str__'' [] (NotOp (VariableValue [''self''])))"
  by (simp add: strbool_class_def name_to_method_index_def)

lemma ex_str: "GetMethod example_class ''__str__'' = None"
  by (simp add: example_class_def name_to_method_index_def rebind_method_def get_method_def)

lemma peek_get: "GetMethod peek_class ''peek'' = Some (Method ''peek'' [] (VariableValue [''secret'']))"
  by (simp add: peek_class_def name_to_method_index_def)




lemma fold_upd_dom:
  "dom (fold (\<lambda>(p, a) m. m(p \<mapsto> a)) zs c) = dom c \<union> fst ` set zs"
  by (induction zs arbitrary: c) (auto split: prod.splits)

lemma call_closure_dom:
  "length (formal_params m) = length actual_args \<Longrightarrow>
   dom (call_closure this m actual_args) = insert ''self'' (set (formal_params m))"
proof -
  assume l: "length (formal_params m) = length actual_args"
  have "fst ` set (zip (formal_params m) actual_args) = set (map fst (zip (formal_params m) actual_args))"
    by simp
  also have "\<dots> = set (formal_params m)" using l by (simp only: map_fst_zip)
  finally show ?thesis
    by (simp add: call_closure_def bind_params_def fold_upd_dom)
qed

lemma fold_upd_map_of:
  "fold (\<lambda>(p, a) m. m(p \<mapsto> a)) zs c = c ++ map_of (rev zs)"
  by (induction zs arbitrary: c) (auto simp: map_add_def fun_eq_iff split: option.splits)

lemma map_of_rev_distinct: "distinct (map fst xs) \<Longrightarrow> map_of (rev xs) = map_of xs"
proof (induction xs)
  case Nil
  show ?case by simp
next
  case (Cons x xs)
  obtain k v where x: "x = (k, v)" by (cases x)
  from Cons.prems x have nk: "map_of xs k = None"
    by (simp add: map_of_eq_None_iff)
  from Cons have ih: "map_of (rev xs) = map_of xs" by simp
  show ?case
    using nk by (auto simp: x ih fun_eq_iff map_add_def split: option.splits)
qed

lemma call_closure_param:
  assumes "length (formal_params m) = length actual_args" "distinct (formal_params m)"
    "i < length actual_args"
  shows "call_closure this m actual_args (formal_params m ! i) = Some (actual_args ! i)"
proof -
  have d: "distinct (map fst (zip (formal_params m) actual_args))"
    using assms by (simp add: map_fst_zip)
  have "map_of (rev (zip (formal_params m) actual_args)) (formal_params m ! i) = Some (actual_args ! i)"
    using assms d by (simp add: map_of_zip_nth map_of_rev_distinct)
  then show ?thesis
    by (simp add: call_closure_def bind_params_def fold_upd_map_of)
qed


section \<open>Properties of the lexer\<close>


lemma Lexer_input_twice [simp]: "lx\<lparr>input := a\<rparr>\<lparr>input := b\<rparr> = lx\<lparr>input := b\<rparr>"
  by simp

lemma IgnoreSpaces_spaces: "IgnoreSpaces (replicate k (CHR '' '') @ s) = IgnoreSpaces s"
  unfolding IgnoreSpaces_def by (induction k) simp_all

lemma count_spaces_spaces: "count_spaces (replicate k (CHR '' '') @ s) = k + count_spaces s"
  unfolding count_spaces_def by (induction k) simp_all

lemma starts_code_IgnoreSpaces: "starts_code rest \<Longrightarrow> IgnoreSpaces rest = rest"
  by (cases rest) (simp_all add: starts_code_def IgnoreSpaces_def peek_def)

lemma starts_code_count: "starts_code rest \<Longrightarrow> count_spaces rest = 0"
  by (cases rest) (simp_all add: starts_code_def count_spaces_def peek_def)

lemma blank_line_skip:
  assumes "is_blank_line l"
  shows "IgnoreEmptyRawsAndComments (lx\<lparr>input := l @ s\<rparr>) = IgnoreEmptyRawsAndComments (lx\<lparr>input := s\<rparr>)"
proof -
  define b where "b = butlast l"
  from assms have l: "l = b @ [newline]" and nb: "newline \<notin> set b"
    and sh: "IgnoreSpaces b = [] \<or> peek (IgnoreSpaces b) = Some (CHR ''#'')"
    unfolding is_blank_line_def b_def using append_butlast_last_id[of l] by auto
  show ?thesis
  proof (cases "IgnoreSpaces b = []")
    case True
    then have "\<forall>x\<in>set b. x = CHR '' ''" by (simp add: IgnoreSpaces_def)
    then have "IgnoreSpaces (l @ s) = newline # s"
      unfolding l IgnoreSpaces_def by (simp add: dropWhile_append2)
    then have p: "peek (IgnoreSpaces (input (lx\<lparr>input := l @ s\<rparr>))) = Some newline"
      and d: "drop 1 (IgnoreSpaces (input (lx\<lparr>input := l @ s\<rparr>))) = s"
      by (simp_all add: peek_def)
    from IgnoreEmpty_newline[OF p] d show ?thesis by simp
  next
    case False
    with sh obtain t where t: "IgnoreSpaces b = CHR ''#'' # t"
      by (auto simp: peek_def split: list.splits)
    from False have "\<exists>x\<in>set b. x \<noteq> CHR '' ''" by (simp add: IgnoreSpaces_def)
    then have "IgnoreSpaces (l @ s) = IgnoreSpaces b @ newline # s"
      unfolding l IgnoreSpaces_def by (auto simp: dropWhile_append1)
    with t have i: "IgnoreSpaces (l @ s) = CHR ''#'' # t @ newline # s" by simp
    have "set (CHR ''#'' # t) \<subseteq> set b"
      using set_dropWhileD[of _ "\<lambda>c. c = CHR '' ''" b] t unfolding IgnoreSpaces_def by auto
    with nb have nt: "newline \<notin> set (CHR ''#'' # t)" by blast
    then have "dropWhile (\<lambda>c. c \<noteq> newline) ((CHR ''#'' # t) @ newline # s) = newline # s"
      by (subst dropWhile_append2) auto
    then have g: "getline (IgnoreSpaces (l @ s)) = s"
      unfolding i getline_def by simp
    from i have p: "peek (IgnoreSpaces (input (lx\<lparr>input := l @ s\<rparr>))) = Some (CHR ''#'')"
      by (simp add: peek_def)
    from IgnoreEmpty_comment[OF p] g show ?thesis by simp
  qed
qed

lemma blank_lines_skip:
  "list_all is_blank_line ls \<Longrightarrow>
   IgnoreEmptyRawsAndComments (lx\<lparr>input := concat ls @ s\<rparr>) = IgnoreEmptyRawsAndComments (lx\<lparr>input := s\<rparr>)"
  by (induction ls) (simp_all add: blank_line_skip)

lemma code_line_layout:
  assumes "starts_code rest"
  shows "IgnoreEmptyRawsAndComments (lx\<lparr>input := replicate k (CHR '' '') @ rest\<rparr>)
     = (if odd k then Inl (LexerError ''invalid indent'')
        else Inr (lx\<lparr>input := rest,
                     diff_current_prev_indent := int (k div 2) - current_indent lx,
                     current_indent := int (k div 2)\<rparr>))"
proof -
  let ?lx = "lx\<lparr>input := replicate k (CHR '' '') @ rest\<rparr>"
  have i: "IgnoreSpaces (input ?lx) = rest"
    using assms by (simp add: IgnoreSpaces_spaces starts_code_IgnoreSpaces)
  have c: "count_spaces (input ?lx) = k"
    using assms by (simp add: count_spaces_spaces starts_code_count)
  from assms i have p1: "peek (IgnoreSpaces (input ?lx)) \<noteq> Some newline"
    and p2: "peek (IgnoreSpaces (input ?lx)) \<noteq> Some (CHR ''#'')"
    by (simp_all add: starts_code_def)
  show ?thesis
    unfolding IgnoreEmpty_code[OF p1 p2] i c by (simp add: odd_iff_mod_2_eq_one)
qed


lemma ParseNumber_token:
  assumes "ParseNumber special s = Inr (t, r)"
  shows "\<exists>n. t = TNumber n"
proof (cases s)
  case Nil
  with assms show ?thesis by (simp add: ParseNumber_def)
next
  case (Cons a list)
  with assms have "TNumber (stoi (takeWhile isdigit s)) = t"
    by (simp add: ParseNumber_def split: if_splits)
  then show ?thesis by blast
qed

lemma string_loop_token: "string_loop q s acc = Inr (t, r) \<Longrightarrow> \<exists>x. t = TString x"
proof (induction q s acc rule: string_loop.induct)
  case (1 q str)
  then show ?case by simp
next
  case (2 q c cs str)
  show ?case
  proof (cases "c \<noteq> q \<and> c \<noteq> CHR 0x5C")
    case True
    with "2.prems" have "string_loop q cs (str @ [c]) = Inr (t, r)" by simp
    from "2.IH"(1)[OF True this] show ?thesis .
  next
    case False
    show ?thesis
    proof (cases "c = CHR 0x5C")
      case True
      show ?thesis
      proof (cases cs)
        case Nil
        with "2.prems" True show ?thesis by simp
      next
        case (Cons d ds)
        with "2.prems" True have "string_loop q ds
            (str @ [if d = CHR ''t'' then CHR 0x09 else if d = CHR ''n'' then newline else d]) = Inr (t, r)"
          by simp
        from "2.IH"(3)[OF False True Cons this] show ?thesis .
      qed
    next
      case nb: False
      with False "2.prems" have "TString str = t" by simp
      then show ?thesis by blast
    qed
  qed
qed

lemma ParseStringConstant_token:
  assumes "ParseStringConstant s = Inr (t, r)"
  shows "\<exists>x. t = TString x"
proof (cases s)
  case Nil
  with assms show ?thesis by (simp add: ParseStringConstant_def)
next
  case (Cons q cs)
  with assms have "string_loop q cs [] = Inr (t, r)"
    by (simp add: ParseStringConstant_def split: if_splits)
  then show ?thesis by (rule string_loop_token)
qed

lemma keyword_to_token_range:
  assumes "keyword_to_token k = Some t"
  shows "t \<noteq> TIndent \<and> t \<noteq> TDedent"
proof -
  from assms have "(k, t) \<in> set
     [(''class'', TClass), (''return'', TReturn), (''if'', TIf), (''else'', TElse),
      (''def'', TDef), (''print'', TPrint), (''and'', TAnd), (''or'', TOr), (''not'', TNot),
      (''None'', TNone), (''True'', TTrue), (''False'', TFalse)]"
    unfolding keyword_to_token_def by (rule map_of_SomeD)
  then have "t \<in> {TClass, TReturn, TIf, TElse, TDef, TPrint, TAnd, TOr, TNot, TNone, TTrue, TFalse}"
    by (simp only: set_simps insert_iff empty_iff prod.inject) blast
  then show ?thesis by (simp only: insert_iff empty_iff) (elim disjE; simp)
qed

lemma ParseName_token:
  assumes p: "ParseName s = Inr (t, r)"
  shows "t \<noteq> TIndent \<and> t \<noteq> TDedent"
proof (cases s)
  case Nil
  with p show ?thesis by (simp add: ParseName_def)
next
  case (Cons c cs)
  show ?thesis
  proof (cases "keyword_to_token (c # takeWhile ident_char cs)")
    case None
    with p Cons have "TId (c # takeWhile ident_char cs) = t"
      by (simp add: ParseName_def split: if_splits)
    then show ?thesis by auto
  next
    case (Some k)
    with p Cons have "t = k" by (simp add: ParseName_def split: if_splits)
    with keyword_to_token_range[OF Some] show ?thesis by simp
  qed
qed

lemma ParseComparisonOperand_token:
  assumes "ParseComparisonOperand s = Inr (t, r)"
  shows "t \<noteq> TIndent \<and> t \<noteq> TDedent"
proof -
  from assms have "t = TEq \<or> t = TNotEq \<or> t = TLessOrEq \<or> t = TGreaterOrEq"
    unfolding ParseComparisonOperand_def Let_def
    by (simp split: if_splits)
  then show ?thesis by (elim disjE; simp)
qed


lemma no_layout_simps [simp]:
  "no_layout (Inl e)"
  "no_layout (Inr lx') = (current_token lx' \<noteq> TIndent \<and> current_token lx' \<noteq> TDedent)"
  by (simp_all add: no_layout_def)

lemma no_layout_emit:
  "(\<And>t r. p = Inr (t, r) \<Longrightarrow> t \<noteq> TIndent \<and> t \<noteq> TDedent) \<Longrightarrow> no_layout (emit lx p)"
  by (cases p) (auto simp: emit_def)

lemma NextToken_unfold:
  assumes "current_token lx \<noteq> TEof" "resolve lx = Inr lx1" "diff_current_prev_indent lx1 = 0"
  shows "NextToken special lx =
          (case IgnoreSpaces (input lx1) of
            [] \<Rightarrow>
              if current_token lx1 = TNewline \<or> current_token lx1 = TIndent \<or> current_token lx1 = TDedent
              then Inr (lx1\<lparr>input := [], current_token := TEof\<rparr>)
              else Inr (lx1\<lparr>input := [], current_token := TNewline\<rparr>)
          | c # cs \<Rightarrow>
              if isdigit c then emit lx1 (ParseNumber special (c # cs))
              else if c = CHR 0x27 \<or> c = CHR 0x22 then emit lx1 (ParseStringConstant (c # cs))
              else if c = CHR 0xFF then
                if current_token lx1 = TNewline \<or> current_token lx1 = TIndent \<or> current_token lx1 = TDedent
                then Inr (lx1\<lparr>input := cs, current_token := TEof\<rparr>)
                else Inr (lx1\<lparr>input := cs, current_token := TNewline\<rparr>)
              else if c = newline then Inr (lx1\<lparr>input := cs, current_token := TNewline\<rparr>)
              else if c = CHR ''#'' then
                (case IgnoreEmptyRawsAndComments (lx1\<lparr>input := getline cs\<rparr>) of
                   Inl e \<Rightarrow> Inl e
                 | Inr lx2 \<Rightarrow>
                     if is_EOF (peek (input lx2)) then Inr (lx2\<lparr>current_token := TEof\<rparr>)
                     else Inr (lx2\<lparr>current_token := TNewline\<rparr>))
              else if c = CHR ''='' \<and> peek cs \<noteq> Some (CHR ''='')
              then Inr (lx1\<lparr>input := cs, current_token := TChar (CHR ''='')\<rparr>)
              else if c \<in> comparison_symbols \<and> peek cs = Some (CHR ''='')
              then emit lx1 (ParseComparisonOperand (c # cs))
              else if c \<in> special then Inr (lx1\<lparr>input := cs, current_token := TChar c\<rparr>)
              else if isalpha c \<or> c = CHR ''_'' then emit lx1 (ParseName (c # cs))
              else Inl (LexerError ''parsing error''))"
proof -
  have h: "\<And>lxa. (case IgnoreEmptyRawsAndComments lxa of
                   Inl e \<Rightarrow> Inl e
                 | Inr lx2 \<Rightarrow>
                     if peek (input lx2) = Some (CHR ''#'') then NextToken special lx2
                     else if is_EOF (peek (input lx2)) then Inr (lx2\<lparr>current_token := TEof\<rparr>)
                     else Inr (lx2\<lparr>current_token := TNewline\<rparr>))
            = (case IgnoreEmptyRawsAndComments lxa of
                   Inl e \<Rightarrow> Inl e
                 | Inr lx2 \<Rightarrow>
                     if is_EOF (peek (input lx2)) then Inr (lx2\<lparr>current_token := TEof\<rparr>)
                     else Inr (lx2\<lparr>current_token := TNewline\<rparr>))"
    by (auto split: sum.splits dest: IgnoreEmptyRawsAndComments_peek)
  from assms show ?thesis
    apply (subst NextToken.simps)
    apply (simp only: resolve_def[symmetric] if_False sum.case h simp_thms)
    done
qed

lemma NextToken_pending:
  assumes "current_token lx \<noteq> TEof" "resolve lx = Inr lx1" "diff_current_prev_indent lx1 \<noteq> 0"
  shows "NextToken special lx = ParseIndentOrDedent lx1"
  using assms by (subst NextToken.simps) (simp add: resolve_def)

lemma NextToken_resolve_error:
  assumes "current_token lx \<noteq> TEof" "resolve lx = Inl e"
  shows "NextToken special lx = Inl e"
  using assms by (subst NextToken.simps) (simp add: resolve_def)


lemma NextToken_no_layout:
  assumes "current_token lx \<noteq> TEof" "resolve lx = Inr lx1" "diff_current_prev_indent lx1 = 0"
  shows "no_layout (NextToken special lx)"
proof (cases "IgnoreSpaces (input lx1)")
  case Nil
  then show ?thesis unfolding NextToken_unfold[OF assms] by simp
next
  case (Cons c cs)
  have n: "no_layout (emit lx1 (ParseNumber special (c # cs)))"
    by (rule no_layout_emit) (auto dest: ParseNumber_token)
  have s: "no_layout (emit lx1 (ParseStringConstant (c # cs)))"
    by (rule no_layout_emit) (auto dest: ParseStringConstant_token)
  have o: "no_layout (emit lx1 (ParseComparisonOperand (c # cs)))"
    by (rule no_layout_emit) (auto dest: ParseComparisonOperand_token)
  have m: "no_layout (emit lx1 (ParseName (c # cs)))"
    by (rule no_layout_emit) (auto dest: ParseName_token)
  have h: "no_layout (case IgnoreEmptyRawsAndComments (lx1\<lparr>input := getline cs\<rparr>) of
                   Inl e \<Rightarrow> Inl e
                 | Inr lx2 \<Rightarrow>
                     if is_EOF (peek (input lx2)) then Inr (lx2\<lparr>current_token := TEof\<rparr>)
                     else Inr (lx2\<lparr>current_token := TNewline\<rparr>))"
    by (auto split: sum.splits)
  show ?thesis unfolding NextToken_unfold[OF assms] Cons
    using n s o m h by simp
qed


lemma NextToken_resolve_cong:
  assumes "current_token a = current_token b" "resolve a = resolve b"
  shows "NextToken special a = NextToken special b"
proof (cases "current_token a = TEof")
  case True
  with assms have "resolve a = Inr a" "resolve b = Inr b" by (simp_all add: resolve_def)
  with assms True show ?thesis by (simp add: NextToken.simps[of special a] NextToken.simps[of special b])
next
  case False
  with assms have fb: "current_token b \<noteq> TEof" by simp
  show ?thesis
  proof (cases "resolve a")
    case (Inl e)
    with assms NextToken_resolve_error[OF False Inl] NextToken_resolve_error[OF fb, of e] show ?thesis
      by simp
  next
    case (Inr lx1)
    with assms have rb: "resolve b = Inr lx1" by simp
    show ?thesis
    proof (cases "diff_current_prev_indent lx1 = 0")
      case True
      show ?thesis
        unfolding NextToken_unfold[OF False Inr True] NextToken_unfold[OF fb rb True] ..
    next
      case nz: False
      show ?thesis
        unfolding NextToken_pending[OF False Inr nz] NextToken_pending[OF fb rb nz] ..
    qed
  qed
qed

lemma pending_indents:
  "current_token lx \<noteq> TEof \<Longrightarrow> current_token lx \<noteq> TNewline \<Longrightarrow>
   diff_current_prev_indent lx = int (Suc k) \<Longrightarrow>
   NextTokens special (Suc k) lx
     = Inr (replicate (Suc k) TIndent, lx\<lparr>diff_current_prev_indent := 0, current_token := TIndent\<rparr>)"
proof (induction k arbitrary: lx)
  case 0
  then have r: "resolve lx = Inr lx" and nz: "diff_current_prev_indent lx \<noteq> 0"
    by (simp_all add: resolve_def)
  from NextToken_pending[OF "0.prems"(1) r nz] "0.prems"(3) show ?case
    by (simp add: ParseIndentOrDedent_def)
next
  case (Suc k)
  then have r: "resolve lx = Inr lx" and nz: "diff_current_prev_indent lx \<noteq> 0"
    by (simp_all add: resolve_def)
  let ?lx = "lx\<lparr>diff_current_prev_indent := int (Suc k), current_token := TIndent\<rparr>"
  from NextToken_pending[OF Suc.prems(1) r nz] Suc.prems(3)
  have n: "NextToken special lx = Inr ?lx"
    by (simp add: ParseIndentOrDedent_def)
  have "NextTokens special (Suc k) ?lx
     = Inr (replicate (Suc k) TIndent, ?lx\<lparr>diff_current_prev_indent := 0, current_token := TIndent\<rparr>)"
    by (rule Suc.IH) simp_all
  with n show ?case by simp
qed

lemma pending_dedents:
  "current_token lx \<noteq> TEof \<Longrightarrow> current_token lx \<noteq> TNewline \<Longrightarrow>
   diff_current_prev_indent lx = - int (Suc k) \<Longrightarrow>
   NextTokens special (Suc k) lx
     = Inr (replicate (Suc k) TDedent, lx\<lparr>diff_current_prev_indent := 0, current_token := TDedent\<rparr>)"
proof (induction k arbitrary: lx)
  case 0
  then have r: "resolve lx = Inr lx" and nz: "diff_current_prev_indent lx \<noteq> 0"
    by (simp_all add: resolve_def)
  from NextToken_pending[OF "0.prems"(1) r nz] "0.prems"(3) show ?case
    by (simp add: ParseIndentOrDedent_def)
next
  case (Suc k)
  then have r: "resolve lx = Inr lx" and nz: "diff_current_prev_indent lx \<noteq> 0"
    by (simp_all add: resolve_def)
  let ?lx = "lx\<lparr>diff_current_prev_indent := - int (Suc k), current_token := TDedent\<rparr>"
  from NextToken_pending[OF Suc.prems(1) r nz] Suc.prems(3)
  have n: "NextToken special lx = Inr ?lx"
    by (simp add: ParseIndentOrDedent_def)
  have "NextTokens special (Suc k) ?lx
     = Inr (replicate (Suc k) TDedent, ?lx\<lparr>diff_current_prev_indent := 0, current_token := TDedent\<rparr>)"
    by (rule Suc.IH) simp_all
  with n show ?case by simp
qed

lemma resolve_code_line:
  assumes "current_token lx = TNewline" "starts_code rest"
  shows "resolve (lx\<lparr>input := replicate (2 * n) (CHR '' '') @ rest\<rparr>)
     = Inr (lx\<lparr>input := rest, diff_current_prev_indent := int n - current_indent lx,
              current_indent := int n\<rparr>)"
  using assms by (simp add: resolve_def code_line_layout)

lemma layout_tokens_from_newline:
  assumes nl: "current_token lx = TNewline" and sc: "starts_code rest"
    and ne: "int n \<noteq> current_indent lx"
  shows "NextTokens special (nat \<bar>int n - current_indent lx\<bar>)
           (lx\<lparr>input := replicate (2 * n) (CHR '' '') @ rest\<rparr>)
       = Inr (replicate (nat \<bar>int n - current_indent lx\<bar>) (layout_token (current_indent lx) n),
              lx\<lparr>input := rest, current_token := layout_token (current_indent lx) n,
                 current_indent := int n, diff_current_prev_indent := 0\<rparr>)"
proof -
  let ?l = "current_indent lx"
  let ?a = "lx\<lparr>input := replicate (2 * n) (CHR '' '') @ rest\<rparr>"
  let ?lx1 = "lx\<lparr>input := rest, diff_current_prev_indent := int n - ?l, current_indent := int n\<rparr>"
  have ct: "current_token ?a \<noteq> TEof" using nl by simp
  have r: "resolve ?a = Inr ?lx1" by (rule resolve_code_line[OF nl sc])
  have nz: "diff_current_prev_indent ?lx1 \<noteq> 0" using ne by simp
  note first = NextToken_pending[OF ct r nz, of special]
  obtain k where k: "nat \<bar>int n - ?l\<bar> = Suc k" using ne by (cases "nat \<bar>int n - ?l\<bar>") auto
  show ?thesis
  proof (cases "?l < int n")
    case True
    with k have d: "int n - ?l = int (Suc k)" by linarith
    let ?lx2 = "?lx1\<lparr>diff_current_prev_indent := int k, current_token := TIndent\<rparr>"
    from first True d have f: "NextToken special ?a = Inr ?lx2"
      by (simp add: ParseIndentOrDedent_def)
    show ?thesis
    proof (cases k)
      case 0
      with f k True show ?thesis by (simp add: layout_token_def)
    next
      case (Suc j)
      have "NextTokens special (Suc j) ?lx2
         = Inr (replicate (Suc j) TIndent, ?lx2\<lparr>diff_current_prev_indent := 0, current_token := TIndent\<rparr>)"
        by (rule pending_indents) (simp_all add: Suc)
      with f k True Suc show ?thesis by (simp add: layout_token_def)
    qed
  next
    case False
    with ne k have d: "int n - ?l = - int (Suc k)" by linarith
    let ?lx2 = "?lx1\<lparr>diff_current_prev_indent := - int k, current_token := TDedent\<rparr>"
    from first False d have f: "NextToken special ?a = Inr ?lx2"
      by (simp add: ParseIndentOrDedent_def)
    show ?thesis
    proof (cases k)
      case 0
      with f k False show ?thesis by (simp add: layout_token_def)
    next
      case (Suc j)
      have "NextTokens special (Suc j) ?lx2
         = Inr (replicate (Suc j) TDedent, ?lx2\<lparr>diff_current_prev_indent := 0, current_token := TDedent\<rparr>)"
        by (rule pending_dedents) (simp_all add: Suc)
      with f k False Suc show ?thesis by (simp add: layout_token_def)
    qed
  qed
qed

lemma NextToken_newline:
  assumes "current_token lx \<noteq> TEof" "current_token lx \<noteq> TNewline" "diff_current_prev_indent lx = 0"
  shows "NextToken special (lx\<lparr>input := replicate j (CHR '' '') @ newline # s\<rparr>)
           = Inr (lx\<lparr>input := s, current_token := TNewline\<rparr>)"
proof -
  let ?a = "lx\<lparr>input := replicate j (CHR '' '') @ newline # s\<rparr>"
  have ct: "current_token ?a \<noteq> TEof" using assms by simp
  have r: "resolve ?a = Inr ?a" using assms by (simp add: resolve_def)
  have z: "diff_current_prev_indent ?a = 0" using assms by simp
  have i: "IgnoreSpaces (input ?a) = newline # s"
    by (simp add: IgnoreSpaces_spaces) (simp add: IgnoreSpaces_def)
  show ?thesis
    unfolding NextToken_unfold[OF ct r z] i by (simp add: isdigit_def)
qed

lemma NextTokens_error: "NextToken special lx = Inl e \<Longrightarrow> NextTokens special (Suc m) lx = Inl e"
  by simp


lemma lexer_after_simps [simp]:
  "input (lexer_after t l s) = s"
  "current_token (lexer_after t l s) = t"
  "current_indent (lexer_after t l s) = l"
  "diff_current_prev_indent (lexer_after t l s) = 0"
  "(lexer_after t l s)\<lparr>input := s'\<rparr> = lexer_after t l s'"
  "(lexer_after t l s)\<lparr>current_token := t'\<rparr> = lexer_after t' l s"
  "(lexer_after t l s)\<lparr>current_indent := l'\<rparr> = lexer_after t l' s"
  "(lexer_after t l s)\<lparr>diff_current_prev_indent := 0\<rparr> = lexer_after t l s"
  by (simp_all add: lexer_after_def)

lemma replicate_numeral_Cons [simp]:
  "replicate (numeral k) x = x # replicate (pred_numeral k) x"
  by (simp add: numeral_eq_Suc)

lemma blank_examples:
  "is_blank_line [newline]"
  "is_blank_line (''  # c'' @ [newline])"
  by (simp_all add: is_blank_line_def IgnoreSpaces_def peek_def)


section \<open>Claims about the evaluator\<close>

text \<open>
  Claim C1 (\<open>ClassInstance::Call\<close>). When the class of the receiver has the method with as
  many formal parameters as there are actual arguments, and the body returns from the scope
  of the call, then \<open>self\<close> is still bound in that scope, and the call returns the value
  bound to \<open>self\<close> if that is no longer the receiver, and the result of the body otherwise.
\<close>

theorem Call_rebound_self:
  assumes m: "GetMethod (class_of ct st this) method = Some m"
    and len: "length (formal_params m) = length actual_args"
    and body: "Execute ct n (method_body m) (call_closure this m actual_args) st
                 = Returned (result, closure', st')"
  shows "\<exists>self. closure' ''self'' = Some self \<and>
           ClassInstance_Call ct n this method actual_args st
             = Returned (if self \<noteq> HInstance this then self else result, st')"
proof -
  have "call_closure this m actual_args ''self'' \<noteq> None"
    unfolding call_closure_def by (rule bind_params_keys) simp
  then have "''self'' \<in> dom (call_closure this m actual_args)" by (simp add: domIff)
  with keeps_keysD[OF Execute_keeps_keys body] have "''self'' \<in> dom closure'" by blast
  then obtain self where s: "closure' ''self'' = Some self" by (auto simp: domIff)
  have "HasMethod (class_of ct st this) method (length actual_args)"
    using m len by (simp add: HasMethod_iff)
  with m body s have "ClassInstance_Call ct n this method actual_args st
             = Returned (if self \<noteq> HInstance this then self else result, st')"
    by (simp add: ClassInstance_Call_def Call_def)
  with s show ?thesis by blast
qed


theorem Call_rebound_self_witness:
  "ClassInstance_Call (\<lambda>k. example_class) 3 0 ''rebind'' [HNumber 7] init_state
     = Returned (HNumber 7, init_state) \<and>
   ClassInstance_Call (\<lambda>k. example_class) 3 0 ''get'' [HNumber 7] init_state
     = Returned (HNumber 7, init_state) \<and>
   ClassInstance_Call (\<lambda>k. example_class) 3 0 ''get'' [HInstance 0] init_state
     = Returned (HInstance 0, init_state)"
proof -
  let ?ct = "\<lambda>k::nat. example_class"
  have m: "GetMethod (class_of ?ct init_state 0) ''rebind'' = Some rebind_method"
    by (simp add: class_of_def ex_get)
  have len: "length (formal_params rebind_method) = length [HNumber 7]"
    by (simp add: rebind_method_def)
  have body: "\<exists>c'. Execute ?ct 3 (method_body rebind_method) (call_closure 0 rebind_method [HNumber 7]) init_state
      = Returned (HNone, c', init_state) \<and> c' ''self'' = Some (HNumber 7)"
    by (simp add: rebind_method_def call_closure_def bind_params_def Assignment_Execute_def
        VariableValue_Execute_def)
  then obtain c' where b: "Execute ?ct 3 (method_body rebind_method) (call_closure 0 rebind_method [HNumber 7]) init_state
      = Returned (HNone, c', init_state)" and s: "c' ''self'' = Some (HNumber 7)" by blast
  from Call_rebound_self[OF m len b] s
  have 1: "ClassInstance_Call ?ct 3 0 ''rebind'' [HNumber 7] init_state = Returned (HNumber 7, init_state)"
    by auto
  have m2: "GetMethod (class_of ?ct init_state 0) ''get'' = Some get_method"
    by (simp add: class_of_def ex_get2)
  have len2: "length (formal_params get_method) = length [HNumber 7]"
    by (simp add: get_method_def)
  have body2: "\<exists>c'. Execute ?ct 3 (method_body get_method) (call_closure 0 get_method [HNumber 7]) init_state
      = Returned (HNumber 7, c', init_state) \<and> c' ''self'' = Some (HInstance 0)"
    by (simp add: get_method_def call_closure_def bind_params_def VariableValue_Execute_def)
  then obtain c2 where b2: "Execute ?ct 3 (method_body get_method) (call_closure 0 get_method [HNumber 7]) init_state
      = Returned (HNumber 7, c2, init_state)" and s2: "c2 ''self'' = Some (HInstance 0)" by blast
  from Call_rebound_self[OF m2 len2 b2] s2
  have 2: "ClassInstance_Call ?ct 3 0 ''get'' [HNumber 7] init_state = Returned (HNumber 7, init_state)"
    by auto
  have len3: "length (formal_params get_method) = length [HInstance 0]"
    by (simp add: get_method_def)
  have body3: "\<exists>c'. Execute ?ct 3 (method_body get_method) (call_closure 0 get_method [HInstance 0]) init_state
      = Returned (HInstance 0, c', init_state) \<and> c' ''self'' = Some (HInstance 0)"
    by (simp add: get_method_def call_closure_def bind_params_def VariableValue_Execute_def)
  then obtain c3 where b3: "Execute ?ct 3 (method_body get_method) (call_closure 0 get_method [HInstance 0]) init_state
      = Returned (HInstance 0, c3, init_state)" and s3: "c3 ''self'' = Some (HInstance 0)" by blast
  from Call_rebound_self[OF m2 len3 b3] s3
  have 3: "ClassInstance_Call ?ct 3 0 ''get'' [HInstance 0] init_state = Returned (HInstance 0, init_state)"
    by auto
  from 1 2 3 show ?thesis by blast
qed

text \<open>
  Claim C3 (\<open>Compound::Execute\<close>, \<open>Return::Execute\<close>). The statements of a compound run in
  order, each from the closure and state its predecessor left. When the closure holds
  \<open>returned_value\<close> after a statement, the compound returns None from there and the later
  statements do not run; a compound that ran to its end without the key returned None and a
  longer one goes on from where it ended. \<open>Return\<close> binds the value of its expression to
  \<open>returned_value\<close>, so what follows a \<open>Return\<close> in a compound never changes the outcome.
\<close>

theorem Compound_returned_value:
  "(Execute ct n s c st = Returned (v, c', st') \<longrightarrow>
      Execute ct (Suc n) (Compound (s # ys)) c st
        = (if c' ''returned_value'' \<noteq> None then Returned (HNone, c', st')
           else Execute ct (Suc n) (Compound ys) c' st'))
   \<and> (Execute ct (Suc n) (Compound xs) c st = Returned (v, c', st') \<and> c' ''returned_value'' = None \<longrightarrow>
      v = HNone \<and> Execute ct (Suc n) (Compound (xs @ ys)) c st = Execute ct (Suc n) (Compound ys) c' st')
   \<and> (Execute ct n e c st = Returned (v, c', st') \<longrightarrow>
      Execute ct (Suc n) (Return e) c st = Returned (HNone, c'(''returned_value'' \<mapsto> v), st'))
   \<and> Execute ct k (Compound (xs @ Return e # ys)) c st = Execute ct k (Compound (xs @ [Return e])) c st"
proof (intro conjI impI)
  assume "Execute ct n s c st = Returned (v, c', st')"
  then show "Execute ct (Suc n) (Compound (s # ys)) c st
        = (if c' ''returned_value'' \<noteq> None then Returned (HNone, c', st')
           else Execute ct (Suc n) (Compound ys) c' st')" by simp
next
  assume a: "Execute ct (Suc n) (Compound xs) c st = Returned (v, c', st') \<and> c' ''returned_value'' = None"
  then show "Execute ct (Suc n) (Compound (xs @ ys)) c st = Execute ct (Suc n) (Compound ys) c' st'"
    by (simp add: Compound_append)
  from a have "Compound_Execute (Execute ct n) xs c st = Returned (v, c', st')" by simp
  then show "v = HNone" by (rule Compound_Execute_HNone)
next
  assume "Execute ct n e c st = Returned (v, c', st')"
  then show "Execute ct (Suc n) (Return e) c st = Returned (HNone, c'(''returned_value'' \<mapsto> v), st')"
    by (simp add: Return_Execute_def)
next
  show "Execute ct k (Compound (xs @ Return e # ys)) c st = Execute ct k (Compound (xs @ [Return e])) c st"
  proof (cases k)
    case 0
    then show ?thesis by simp
  next
    case (Suc j)
    with Compound_Return_cut[of ct j xs e ys c st] show ?thesis by simp
  qed
qed


theorem Compound_returned_value_witness:
  "Execute (\<lambda>k. example_class) 3
     (Compound [Return (VariableValue [''x'']), Assignment ''y'' (VariableValue [''x''])])
     (Map.empty(''x'' \<mapsto> HNumber 1)) init_state
   = Returned (HNone, (Map.empty(''x'' \<mapsto> HNumber 1))(''returned_value'' \<mapsto> HNumber 1), init_state)
   \<and> Execute (\<lambda>k. example_class) 3
     (Compound ([Assignment ''y'' (VariableValue [''x''])] @ [Assignment ''z'' (VariableValue [''y''])]))
     (Map.empty(''x'' \<mapsto> HNumber 1)) init_state
   = Returned (HNone, (Map.empty(''x'' \<mapsto> HNumber 1))(''y'' \<mapsto> HNumber 1, ''z'' \<mapsto> HNumber 1), init_state)"
proof -
  let ?ct = "\<lambda>k::nat. example_class"
  let ?c = "Map.empty(''x'' \<mapsto> HNumber 1)"
  let ?ys = "[Assignment ''y'' (VariableValue [''x''])]"
  let ?zs = "[Assignment ''z'' (VariableValue [''y''])]"
  have h0: "Execute ?ct 1 (VariableValue [''x'']) ?c init_state = Returned (HNumber 1, ?c, init_state)"
    by (simp add: VariableValue_Execute_def)
  note ret = Compound_returned_value[
      THEN conjunct2, THEN conjunct2, THEN conjunct1, rule_format, OF h0]
  have h1: "Execute ?ct 2 (Return (VariableValue [''x''])) ?c init_state
      = Returned (HNone, ?c(''returned_value'' \<mapsto> HNumber 1), init_state)"
    using ret by (simp add: numeral_2_eq_2)
  note stop = Compound_returned_value[where ys="?ys",
      THEN conjunct1, rule_format, OF h1]
  have 1: "Execute ?ct 3 (Compound (Return (VariableValue [''x'']) # ?ys)) ?c init_state
      = Returned (HNone, ?c(''returned_value'' \<mapsto> HNumber 1), init_state)"
    using stop by (simp add: numeral_3_eq_3)
  have h2: "Execute ?ct (Suc 2) (Compound ?ys) ?c init_state
      = Returned (HNone, ?c(''y'' \<mapsto> HNumber 1), init_state)
      \<and> (?c(''y'' \<mapsto> HNumber 1)) ''returned_value'' = None"
    by (simp add: Assignment_Execute_def VariableValue_Execute_def)
  note go = Compound_returned_value[where ys="?zs", THEN conjunct2, THEN conjunct1, rule_format, OF h2]
  have 2: "Execute ?ct 3 (Compound (?ys @ ?zs)) ?c init_state
      = Returned (HNone, ?c(''y'' \<mapsto> HNumber 1, ''z'' \<mapsto> HNumber 1), init_state)"
    using go by (simp add: numeral_3_eq_3 Assignment_Execute_def VariableValue_Execute_def)
  from 1 2 show ?thesis by simp
qed

text \<open>
  Claim C4 (\<open>Equal\<close>), as amended. \<open>Equal\<close> of a value and itself is true for None, a
  number, a string and a boolean, and leaves the state as it was. For a class value it raises
  the runtime error; for an instance it is the truth value of the result of \<open>__eq__\<close> when
  the class has that method with one parameter, and the runtime error otherwise.
\<close>

theorem Equal_same_value:
  "Equal ct exec HNone HNone st = Returned (True, st)
   \<and> Equal ct exec (HNumber n) (HNumber n) st = Returned (True, st)
   \<and> Equal ct exec (HString s) (HString s) st = Returned (True, st)
   \<and> Equal ct exec (HBool b) (HBool b) st = Returned (True, st)
   \<and> Equal ct exec (HClass k) (HClass k) st = Raised (RuntimeError ''Cannot compare objects for equality'')
   \<and> Equal ct exec (HInstance a) (HInstance a) st
       = (if HasMethod (class_of ct st a) ''__eq__'' 1
          then obind (Call ct exec a ''__eq__'' [HInstance a] st) (\<lambda>(r, st'). Returned (IsTrue r, st'))
          else Raised (RuntimeError ''Cannot compare objects for equality''))"
  by (simp add: Equal_def cannot_compare_equality_def)

text \<open>
  The claim as stated fails for a class value and for an instance without \<open>__eq__\<close>:
  comparing either with itself raises.
\<close>

theorem Equal_Class_counterexample:
  "Equal (\<lambda>k. example_class) (Execute (\<lambda>k. example_class) 3) (HClass 0) (HClass 0) init_state
     = Raised (RuntimeError ''Cannot compare objects for equality'')
   \<and> Equal (\<lambda>k. example_class) (Execute (\<lambda>k. example_class) 3) (HInstance 0) (HInstance 0) init_state
     = Raised (RuntimeError ''Cannot compare objects for equality'')
   \<and> Execute (\<lambda>k. example_class) 3
        (Comparison CmpEqual (VariableValue [''x'']) (VariableValue [''x'']))
        (Map.empty(''x'' \<mapsto> HClass 0)) init_state
     = Raised (RuntimeError ''Cannot compare objects for equality'')"
  by (simp add: Equal_def cannot_compare_equality_def HasMethod_def class_of_def example_class_def
      name_to_method_index_def rebind_method_def get_method_def init_state_def
      Comparison_Execute_def VariableValue_Execute_def)

text \<open>
  Claim C5 (\<open>NewInstance::Execute\<close>), as amended. Executing the node allocates an instance of
  the class with no fields at an address not in use. Without \<open>__init__\<close>, or with one whose
  number of formal parameters differs from the number of argument expressions, that instance
  is returned, the closure is untouched and the arguments are not evaluated. Otherwise the
  arguments are evaluated, \<open>__init__\<close> is called on the new instance, and the node returns
  what the call returned when that is not the empty holder, and the new instance when it is.
\<close>

theorem NewInstance_Execute_result:
  "(GetMethod (ct k) ''__init__'' = None \<or>
      (\<exists>m. GetMethod (ct k) ''__init__'' = Some m \<and> length (formal_params m) \<noteq> length args)
    \<longrightarrow> Execute ct (Suc n) (NewInstance k args) c st
          = Returned (HInstance (next_addr st), c, snd (Own_ClassInstance k st)))
   \<and> (GetMethod (ct k) ''__init__'' = Some m \<and> length (formal_params m) = length args \<and>
      Execute_args (Execute ct n) args c (snd (Own_ClassInstance k st)) = Returned (actual_args, c1, st1) \<and>
      ClassInstance_Call ct n (next_addr st) ''__init__'' actual_args st1 = Returned (after_init, st2)
    \<longrightarrow> Execute ct (Suc n) (NewInstance k args) c st
          = Returned (if after_init \<noteq> HNone then after_init else HInstance (next_addr st), c1, st2))
   \<and> heap (snd (Own_ClassInstance k st)) (next_addr st) = \<lparr>cls = k, Fields = Map.empty\<rparr>
   \<and> next_addr (snd (Own_ClassInstance k st)) = Suc (next_addr st)
   \<and> out (snd (Own_ClassInstance k st)) = out st
   \<and> (\<forall>a. a \<noteq> next_addr st \<longrightarrow> heap (snd (Own_ClassInstance k st)) a = heap st a)"
  by (auto simp: NewInstance_Execute_def Own_ClassInstance_def ClassInstance_Call_def)


theorem NewInstance_Execute_result_witness:
  "Execute example_classes 4 (NewInstance 1 []) Map.empty (instance_state 1)
     = Returned (HInstance 1, Map.empty, snd (Own_ClassInstance 1 (instance_state 1)))
   \<and> Execute example_classes 4 (NewInstance 1 [VariableValue [''nope'']]) Map.empty (instance_state 1)
     = Returned (HInstance 1, Map.empty, snd (Own_ClassInstance 1 (instance_state 1)))
   \<and> Execute example_classes 4 (NewInstance 0 [VariableValue [''nope'']]) Map.empty (instance_state 1)
     = Returned (HInstance 1, Map.empty, snd (Own_ClassInstance 0 (instance_state 1)))"
proof -
  let ?st0 = "snd (Own_ClassInstance 1 (instance_state 1))"
  let ?m = "Method ''__init__'' [] (MethodBody (Compound []))"
  have g: "GetMethod (example_classes 1) ''__init__'' = Some ?m"
    by (simp add: example_classes_simps init_get)
  have h: "GetMethod (example_classes 1) ''__init__'' = Some ?m \<and>
      length (formal_params ?m) = length ([] :: statement list) \<and>
      Execute_args (Execute example_classes 3) [] Map.empty ?st0 = Returned ([], Map.empty, ?st0) \<and>
      ClassInstance_Call example_classes 3 (next_addr (instance_state 1)) ''__init__'' [] ?st0
        = Returned (HNone, ?st0)"
    by (simp add: example_classes_simps init_get ClassInstance_Call_def Call_def HasMethod_def class_of_def
      instance_state_def Own_ClassInstance_def MethodBody_Execute_def call_closure_def bind_params_def)
  note B = NewInstance_Execute_result[where ct=example_classes and k=1, THEN conjunct2, THEN conjunct1, rule_format, OF h]
  have 1: "Execute example_classes 4 (NewInstance 1 []) Map.empty (instance_state 1)
     = Returned (HInstance 1, Map.empty, ?st0)"
    using B by (simp add: instance_state_def eval_nat_numeral)
  have h2: "GetMethod (example_classes 1) ''__init__'' = None \<or>
      (\<exists>m. GetMethod (example_classes 1) ''__init__'' = Some m \<and>
         length (formal_params m) \<noteq> length [VariableValue [''nope'']])"
    by (simp add: example_classes_simps init_get)
  note A = NewInstance_Execute_result[where ct=example_classes and k=1, THEN conjunct1, rule_format, OF h2]
  have 2: "Execute example_classes 4 (NewInstance 1 [VariableValue [''nope'']]) Map.empty (instance_state 1)
     = Returned (HInstance 1, Map.empty, ?st0)"
    using A[of 3 Map.empty "instance_state 1"] by (simp add: instance_state_def eval_nat_numeral)
  have h3: "GetMethod (example_classes 0) ''__init__'' = None \<or>
      (\<exists>m. GetMethod (example_classes 0) ''__init__'' = Some m \<and>
         length (formal_params m) \<noteq> length [VariableValue [''nope'']])"
    by (simp add: example_classes_simps ex_init)
  note A0 = NewInstance_Execute_result[where ct=example_classes and k=0, THEN conjunct1, rule_format, OF h3]
  have 3: "Execute example_classes 4 (NewInstance 0 [VariableValue [''nope'']]) Map.empty (instance_state 1)
     = Returned (HInstance 1, Map.empty, snd (Own_ClassInstance 0 (instance_state 1)))"
    using A0[of 3 Map.empty "instance_state 1"] by (simp add: instance_state_def eval_nat_numeral)
  from 1 2 3 show ?thesis by simp
qed

text \<open>
  The claim as stated says the handle that results from the dispatch is returned. An
  \<open>__init__\<close> without \<open>return\<close> yields the empty holder, and the node returns the new
  instance, not that holder.
\<close>

theorem NewInstance_Execute_counterexample:
  "ClassInstance_Call example_classes 3 1 ''__init__'' [] (snd (Own_ClassInstance 1 (instance_state 1)))
     = Returned (HNone, snd (Own_ClassInstance 1 (instance_state 1)))
   \<and> Execute example_classes 4 (NewInstance 1 []) Map.empty (instance_state 1)
     = Returned (HInstance 1, Map.empty, snd (Own_ClassInstance 1 (instance_state 1)))"
  by (simp add: ClassInstance_Call_def Call_def HasMethod_def class_of_def example_classes_simps
      init_get instance_state_def Own_ClassInstance_def NewInstance_Execute_def
      MethodBody_Execute_def call_closure_def bind_params_def)


text \<open>
  Claim C6 (\<open>ClassInstance::Call\<close>, \<open>MethodCall::Execute\<close>). The body runs in a closure
  built from nothing: its names are exactly \<open>self\<close> and the formal parameters, \<open>self\<close> is
  the receiver and each parameter is bound to the argument at its position. The closure of
  the caller is only used to evaluate the arguments and the receiver; the call gets the
  receiver, the method name, the argument holders and the state, and the closure of the
  caller comes back as the receiver's evaluation left it.
\<close>

theorem MethodCall_isolation:
  "(GetMethod (class_of ct st this) mname = Some m \<and> length (formal_params m) = length actual_args \<longrightarrow>
      dom (call_closure this m actual_args) = insert ''self'' (set (formal_params m))
      \<and> (''self'' \<notin> set (formal_params m) \<longrightarrow> call_closure this m actual_args ''self'' = Some (HInstance this))
      \<and> (distinct (formal_params m) \<longrightarrow>
           (\<forall>i < length actual_args. call_closure this m actual_args (formal_params m ! i) = Some (actual_args ! i)))
      \<and> ClassInstance_Call ct n this mname actual_args st
          = obind (Execute ct n (method_body m) (call_closure this m actual_args) st)
              (\<lambda>(result, closure', st').
                 case closure' ''self'' of
                   None \<Rightarrow> Raised OutOfRange
                 | Some s \<Rightarrow> Returned (if s \<noteq> HInstance this then s else result, st')))
   \<and> (Execute_args (Execute ct n) args c st = Returned (actual_args, c1, st1) \<and>
        Execute ct n object c1 st1 = Returned (HInstance this, c2, st2) \<longrightarrow>
      Execute ct (Suc n) (MethodCall object mname args) c st
        = obind (ClassInstance_Call ct n this mname actual_args st2) (\<lambda>(r, st3). Returned (r, c2, st3)))"
proof (intro conjI impI allI)
  assume h: "GetMethod (class_of ct st this) mname = Some m \<and> length (formal_params m) = length actual_args"
  then show "dom (call_closure this m actual_args) = insert ''self'' (set (formal_params m))"
    by (simp add: call_closure_dom)
  from h have "HasMethod (class_of ct st this) mname (length actual_args)"
    by (simp add: HasMethod_iff)
  with h show "ClassInstance_Call ct n this mname actual_args st
          = obind (Execute ct n (method_body m) (call_closure this m actual_args) st)
              (\<lambda>(result, closure', st').
                 case closure' ''self'' of
                   None \<Rightarrow> Raised OutOfRange
                 | Some s \<Rightarrow> Returned (if s \<noteq> HInstance this then s else result, st'))"
    by (auto simp: ClassInstance_Call_def Call_def intro!: arg_cong2[where f=obind] split: option.splits)
  {
    assume "''self'' \<notin> set (formal_params m)"
    then have "map_of (rev (zip (formal_params m) actual_args)) ''self'' = None"
      by (metis map_of_eq_None_iff set_rev set_zip_leftD imageE prod.collapse)
    then show "call_closure this m actual_args ''self'' = Some (HInstance this)"
      by (simp add: call_closure_def bind_params_def fold_upd_map_of map_add_def)
  }
  {
    fix i assume "distinct (formal_params m)" "i < length actual_args"
    with h show "call_closure this m actual_args (formal_params m ! i) = Some (actual_args ! i)"
      by (simp add: call_closure_param)
  }
next
  assume "Execute_args (Execute ct n) args c st = Returned (actual_args, c1, st1) \<and>
        Execute ct n object c1 st1 = Returned (HInstance this, c2, st2)"
  then show "Execute ct (Suc n) (MethodCall object mname args) c st
        = obind (ClassInstance_Call ct n this mname actual_args st2) (\<lambda>(r, st3). Returned (r, c2, st3))"
    by (simp add: MethodCall_Execute_def ClassInstance_Call_def)
qed

theorem MethodCall_isolation_witness:
  "Execute example_classes 3 (MethodCall (VariableValue [''p'']) ''peek'' [])
       (Map.empty(''p'' \<mapsto> HInstance 0, ''secret'' \<mapsto> HNumber 9)) (instance_state 5)
     = Raised (RuntimeError ''unknown variable secret'')
   \<and> dom (call_closure 0 (Method ''peek'' [] (VariableValue [''secret''])) []) = {''self''}
   \<and> Execute example_classes 3 (MethodCall (VariableValue [''p'']) ''get'' [VariableValue [''secret'']])
       (Map.empty(''p'' \<mapsto> HInstance 0, ''secret'' \<mapsto> HNumber 9)) (instance_state 0)
     = Returned (HNumber 9, Map.empty(''p'' \<mapsto> HInstance 0, ''secret'' \<mapsto> HNumber 9), instance_state 0)"
proof -
  let ?c = "Map.empty(''p'' \<mapsto> HInstance 0, ''secret'' \<mapsto> HNumber 9)"
  let ?m = "Method ''peek'' [] (VariableValue [''secret''])"
  have h: "GetMethod (class_of example_classes (instance_state 5) 0) ''peek'' = Some ?m \<and>
      length (formal_params ?m) = length ([] :: holder list)"
    by (simp add: class_of_def instance_state_def example_classes_simps peek_get)
  note A = MethodCall_isolation[THEN conjunct1, rule_format, OF h]
  have dm: "dom (call_closure 0 ?m []) = {''self''}"
    using A[THEN conjunct1] by simp
  have call: "ClassInstance_Call example_classes 2 0 ''peek'' [] (instance_state 5)
      = Raised (RuntimeError ''unknown variable secret'')"
    using A[THEN conjunct2, THEN conjunct2, THEN conjunct2, of 2]
    by (simp add: call_closure_def bind_params_def VariableValue_Execute_def)
  have e: "Execute_args (Execute example_classes 2) [] ?c (instance_state 5)
        = Returned ([], ?c, instance_state 5) \<and>
      Execute example_classes 2 (VariableValue [''p'']) ?c (instance_state 5)
        = Returned (HInstance 0, ?c, instance_state 5)"
    by (simp add: VariableValue_Execute_def)
  note B = MethodCall_isolation[THEN conjunct2, rule_format, OF e]
  have 1: "Execute example_classes 3 (MethodCall (VariableValue [''p'']) ''peek'' []) ?c (instance_state 5)
     = Raised (RuntimeError ''unknown variable secret'')"
    using B[of "''peek''"] call by (simp add: eval_nat_numeral)
  have h2: "GetMethod (class_of example_classes (instance_state 0) 0) ''get'' = Some get_method \<and>
      length (formal_params get_method) = length [HNumber 9]"
    by (simp add: class_of_def instance_state_def example_classes_simps ex_get2 get_method_def)
  note A2 = MethodCall_isolation[THEN conjunct1, rule_format, OF h2]
  have call2: "ClassInstance_Call example_classes 2 0 ''get'' [HNumber 9] (instance_state 0)
      = Returned (HNumber 9, instance_state 0)"
    using A2[THEN conjunct2, THEN conjunct2, THEN conjunct2, of 2]
    by (simp add: get_method_def call_closure_def bind_params_def VariableValue_Execute_def)
  have e2: "Execute_args (Execute example_classes 2) [VariableValue [''secret'']] ?c (instance_state 0)
        = Returned ([HNumber 9], ?c, instance_state 0) \<and>
      Execute example_classes 2 (VariableValue [''p'']) ?c (instance_state 0)
        = Returned (HInstance 0, ?c, instance_state 0)"
    by (simp add: VariableValue_Execute_def)
  note B2 = MethodCall_isolation[THEN conjunct2, rule_format, OF e2]
  have 2: "Execute example_classes 3 (MethodCall (VariableValue [''p'']) ''get'' [VariableValue [''secret'']]) ?c (instance_state 0)
     = Returned (HNumber 9, ?c, instance_state 0)"
    using B2[of "''get''"] call2 by (simp add: eval_nat_numeral)
  from 1 dm 2 show ?thesis by simp
qed

text \<open>
  Claim C7 (\<open>ClassInstance::Print\<close>), as amended. Printing an instance whose class (or a
  parent) has no \<open>__str__\<close> writes the address marker. When \<open>__str__\<close> is defined without
  formal parameters and its call returns a string, that string is written. When \<open>__str__\<close>
  is defined with formal parameters, printing raises "method not found". A \<open>Print\<close>
  statement appends what was written, and a newline, to the output.
\<close>

theorem ClassInstance_Print_cases:
  "(GetMethod (class_of ct st this) ''__str__'' = None \<longrightarrow>
      ClassInstance_Print ct exec this st = Returned (show_pointer this, st))
   \<and> (GetMethod (class_of ct st this) ''__str__'' = Some m \<and> formal_params m = [] \<and>
      Call ct exec this ''__str__'' [] st = Returned (HString s, st') \<longrightarrow>
      ClassInstance_Print ct exec this st = Returned (s, st'))
   \<and> (GetMethod (class_of ct st this) ''__str__'' = Some m \<and> formal_params m \<noteq> [] \<longrightarrow>
      ClassInstance_Print ct exec this st = Raised (RuntimeError ''method not found''))
   \<and> (Execute ct n e c st = Returned (HInstance this, c1, st1) \<and>
      ClassInstance_Print ct (Execute ct n) this st1 = Returned (s, st2) \<longrightarrow>
      Execute ct (Suc n) (Print [e]) c st
        = Returned (HNone, c1, st2\<lparr>out := out st2 @ s @ [CHR 0x0A]\<rparr>))"
  by (auto simp: ClassInstance_Print_def Call_def HasMethod_def Print_Execute_def)


theorem ClassInstance_Print_cases_witness:
  "Execute example_classes 2 (Print [VariableValue [''p'']])
        (Map.empty(''p'' \<mapsto> HInstance 0)) (instance_state 0)
      = Returned (HNone, Map.empty(''p'' \<mapsto> HInstance 0), (instance_state 0)\<lparr>out := ''0x0'' @ [CHR 0x0A]\<rparr>)
   \<and> Execute example_classes 5 (Print [VariableValue [''p'']])
        (Map.empty(''p'' \<mapsto> HInstance 0)) (instance_state 3)
      = Returned (HNone, Map.empty(''p'' \<mapsto> HInstance 0), (instance_state 3)\<lparr>out := ''True'' @ [CHR 0x0A]\<rparr>)
   \<and> ClassInstance_Print example_classes (Execute example_classes 1) 0 (instance_state 2)
      = Raised (RuntimeError ''method not found'')"
proof -
  let ?c = "Map.empty(''p'' \<mapsto> HInstance 0)"
  have a: "GetMethod (class_of example_classes (instance_state 0) 0) ''__str__'' = None"
    by (simp add: class_of_def instance_state_def example_classes_simps ex_str)
  note A = ClassInstance_Print_cases[THEN conjunct1, rule_format, OF a]
  have e1: "Execute example_classes 1 (VariableValue [''p'']) ?c (instance_state 0)
      = Returned (HInstance 0, ?c, instance_state 0) \<and>
     ClassInstance_Print example_classes (Execute example_classes 1) 0 (instance_state 0)
      = Returned (''0x0'', instance_state 0)"
    using A[of "Execute example_classes 1"] by (simp add: VariableValue_Execute_def show_pointer_def show_nat.simps)
  note P1 = ClassInstance_Print_cases[THEN conjunct2, THEN conjunct2, THEN conjunct2, rule_format, OF e1]
  have 1: "Execute example_classes 2 (Print [VariableValue [''p'']]) ?c (instance_state 0)
      = Returned (HNone, ?c, (instance_state 0)\<lparr>out := ''0x0'' @ [CHR 0x0A]\<rparr>)"
    using P1 by (simp add: instance_state_def eval_nat_numeral)
  let ?m = "Method ''__str__'' [] (Stringify (NotOp (VariableValue [''self''])))"
  have b: "GetMethod (class_of example_classes (instance_state 3) 0) ''__str__'' = Some ?m \<and>
      formal_params ?m = [] \<and>
      Call example_classes (Execute example_classes 4) 0 ''__str__'' [] (instance_state 3)
        = Returned (HString ''True'', instance_state 3)"
    by (simp add: class_of_def instance_state_def example_classes_simps str_get Call_def HasMethod_def
        call_closure_def bind_params_def Stringify_Execute_def Not_Execute_def VariableValue_Execute_def
        has_str0_def)
  note B = ClassInstance_Print_cases[THEN conjunct2, THEN conjunct1, rule_format, OF b]
  have e2: "Execute example_classes 4 (VariableValue [''p'']) ?c (instance_state 3)
      = Returned (HInstance 0, ?c, instance_state 3) \<and>
     ClassInstance_Print example_classes (Execute example_classes 4) 0 (instance_state 3)
      = Returned (''True'', instance_state 3)"
    using B by (simp add: VariableValue_Execute_def)
  note P2 = ClassInstance_Print_cases[THEN conjunct2, THEN conjunct2, THEN conjunct2, rule_format, OF e2]
  have 2: "Execute example_classes 5 (Print [VariableValue [''p'']]) ?c (instance_state 3)
      = Returned (HNone, ?c, (instance_state 3)\<lparr>out := ''True'' @ [CHR 0x0A]\<rparr>)"
    using P2 by (simp add: instance_state_def eval_nat_numeral)
  let ?q = "Method ''__str__'' [''x''] (VariableValue [''x''])"
  have d: "GetMethod (class_of example_classes (instance_state 2) 0) ''__str__'' = Some ?q \<and>
      formal_params ?q \<noteq> []"
    by (simp add: class_of_def instance_state_def example_classes_simps str1_get)
  note D = ClassInstance_Print_cases[THEN conjunct2, THEN conjunct2, THEN conjunct1, rule_format, OF d]
  from 1 2 D show ?thesis by simp
qed

text \<open>
  The claim as stated fails for a \<open>__str__\<close> that takes an argument (printing raises
  "method not found") and for a \<open>__str__\<close> whose result is no string (a null pointer is
  dereferenced).
\<close>

theorem ClassInstance_Print_counterexample:
  "GetMethod (class_of example_classes (instance_state 2) 0) ''__str__'' \<noteq> None
   \<and> Execute example_classes 3 (Print [VariableValue [''p'']])
        (Map.empty(''p'' \<mapsto> HInstance 0)) (instance_state 2)
      = Raised (RuntimeError ''method not found'')
   \<and> GetMethod (class_of example_classes (instance_state 4) 0) ''__str__'' \<noteq> None
   \<and> Execute example_classes 4 (Print [VariableValue [''p'']])
        (Map.empty(''p'' \<mapsto> HInstance 0)) (instance_state 4)
      = Raised (UndefinedBehaviour ''null pointer dereference'')"
  by (simp add: class_of_def instance_state_def example_classes_simps str1_get strbool_get
      Print_Execute_def VariableValue_Execute_def ClassInstance_Print_def Call_def HasMethod_def
      call_closure_def bind_params_def Not_Execute_def)




section \<open>Claims about the lexer\<close>

text \<open>
  Claim C2 (\<open>IgnoreEmptyRawsAndComments\<close>, \<open>ParseIndentOrDedent\<close>). Between two successive
  lines of code at levels \<open>l\<close> and \<open>n\<close> the token stream holds \<open>n - l\<close> \<open>Indent\<close> tokens when
  \<open>l < n\<close>, \<open>l - n\<close> \<open>Dedent\<close> tokens when \<open>n < l\<close>, and neither when they are equal. The code
  breaks this where a comment follows code on its line. In the three-line input below the
  lines are at levels 0, 1 and 0, and the second line ends in a comment. The tokens are
  those of the first two lines, with the \<open>Indent\<close> between them, then \<open>Newline\<close> and at once
  the tokens of the third line: the \<open>Dedent\<close> between the second and the third line is never
  returned. The \<open>#\<close> branch of \<open>NextToken\<close> runs \<open>IgnoreEmptyRawsAndComments\<close>, which reads
  the third line's indentation and sets the pending difference to \<open>-1\<close> and the level to 0;
  the call after the \<open>Newline\<close> runs it again at the start of the code, where it counts no
  space against level 0 and overwrites the pending difference with 0.
\<close>

theorem trailing_comment_loses_dedent:
  "tokens_of example_special 12
     (''if x:'' @ [newline] @ ''  y = 1 # c'' @ [newline] @ ''z = 2'' @ [newline])
   = Inr [TIf, TId ''x'', TChar (CHR '':''), TNewline, TIndent, TId ''y'', TChar (CHR ''=''),
          TNumber 1, TNewline, TId ''z'', TChar (CHR ''=''), TNumber 2, TNewline]"
  by (simp add: NextToken.simps IgnoreEmptyRawsAndComments.simps IgnoreInitialComments.simps
      Lexer_init_def IgnoreSpaces_def count_spaces_def peek_def is_EOF_def getline_def
      isdigit_def isalpha_def ident_char_def comparison_symbols_def example_special_def
      spec_special_symbols_def emit_def ParseName_def ParseNumber_def
      ParseComparisonOperand_def ParseIndentOrDedent_def keyword_to_token_def stoi_def
      Let_def tokens_of_def eval_nat_numeral)

text \<open>
  The same input with the second line ending at its newline: the \<open>Dedent\<close> is returned.
\<close>

lemma newline_keeps_dedent:
  "tokens_of example_special 13
     (''if x:'' @ [newline] @ ''  y = 1'' @ [newline] @ ''z = 2'' @ [newline])
   = Inr [TIf, TId ''x'', TChar (CHR '':''), TNewline, TIndent, TId ''y'', TChar (CHR ''=''),
          TNumber 1, TNewline, TDedent, TId ''z'', TChar (CHR ''=''), TNumber 2, TNewline]"
  by (simp add: NextToken.simps IgnoreEmptyRawsAndComments.simps IgnoreInitialComments.simps
      Lexer_init_def IgnoreSpaces_def count_spaces_def peek_def is_EOF_def getline_def
      isdigit_def isalpha_def ident_char_def comparison_symbols_def example_special_def
      spec_special_symbols_def emit_def ParseName_def ParseNumber_def
      ParseComparisonOperand_def ParseIndentOrDedent_def keyword_to_token_def stoi_def
      Let_def tokens_of_def eval_nat_numeral)

text \<open>
  Layout at a line that ends at its newline. At the newline that
  ends a line of code the lexer returns \<open>Newline\<close>. From there, the blank and comment-only
  lines in front of the next line of code change nothing in what the following calls
  return. When the next line of code is indented by \<open>2 * n\<close> spaces and the lexer is at
  level \<open>l\<close>, the next \<open>|n - l|\<close> calls return \<open>Indent\<close> when \<open>l < n\<close> and \<open>Dedent\<close>
  when \<open>n < l\<close>, leave the lexer at level \<open>n\<close> in front of the code, and the call after
  them returns no \<open>Indent\<close> and no \<open>Dedent\<close>; when \<open>n = l\<close> the next call returns
  neither.
\<close>

theorem layout_tokens_at_line_boundary:
  "(current_token lx \<noteq> TEof \<and> current_token lx \<noteq> TNewline \<and> diff_current_prev_indent lx = 0 \<longrightarrow>
      NextToken special (lx\<lparr>input := replicate j (CHR '' '') @ newline # s\<rparr>)
        = Inr (lx\<lparr>input := s, current_token := TNewline\<rparr>))
   \<and> (current_token lx = TNewline \<and> list_all is_blank_line ls \<longrightarrow>
      NextTokens special (Suc k) (lx\<lparr>input := concat ls @ s\<rparr>)
        = NextTokens special (Suc k) (lx\<lparr>input := s\<rparr>))
   \<and> (current_token lx = TNewline \<and> starts_code rest \<and> int n \<noteq> current_indent lx \<longrightarrow>
      NextTokens special (nat \<bar>int n - current_indent lx\<bar>)
          (lx\<lparr>input := replicate (2 * n) (CHR '' '') @ rest\<rparr>)
        = Inr (replicate (nat \<bar>int n - current_indent lx\<bar>) (layout_token (current_indent lx) n),
               lx\<lparr>input := rest, current_token := layout_token (current_indent lx) n,
                  current_indent := int n, diff_current_prev_indent := 0\<rparr>)
      \<and> (\<forall>lx'. NextToken special
                  (lx\<lparr>input := rest, current_token := layout_token (current_indent lx) n,
                      current_indent := int n, diff_current_prev_indent := 0\<rparr>) = Inr lx'
             \<longrightarrow> current_token lx' \<noteq> TIndent \<and> current_token lx' \<noteq> TDedent))
   \<and> (current_token lx = TNewline \<and> starts_code rest \<and> int n = current_indent lx \<longrightarrow>
      resolve (lx\<lparr>input := replicate (2 * n) (CHR '' '') @ rest\<rparr>)
        = Inr (lx\<lparr>input := rest, diff_current_prev_indent := 0, current_indent := int n\<rparr>)
      \<and> (\<forall>lx'. NextToken special (lx\<lparr>input := replicate (2 * n) (CHR '' '') @ rest\<rparr>) = Inr lx'
             \<longrightarrow> current_token lx' \<noteq> TIndent \<and> current_token lx' \<noteq> TDedent))"
proof (intro conjI impI allI)
  assume "current_token lx \<noteq> TEof \<and> current_token lx \<noteq> TNewline \<and> diff_current_prev_indent lx = 0"
  then show "NextToken special (lx\<lparr>input := replicate j (CHR '' '') @ newline # s\<rparr>)
        = Inr (lx\<lparr>input := s, current_token := TNewline\<rparr>)"
    by (simp add: NextToken_newline)
next
  assume h: "current_token lx = TNewline \<and> list_all is_blank_line ls"
  then have "resolve (lx\<lparr>input := concat ls @ s\<rparr>) = resolve (lx\<lparr>input := s\<rparr>)"
    by (simp add: resolve_def blank_lines_skip)
  then have "NextToken special (lx\<lparr>input := concat ls @ s\<rparr>) = NextToken special (lx\<lparr>input := s\<rparr>)"
    by (intro NextToken_resolve_cong) simp_all
  then show "NextTokens special (Suc k) (lx\<lparr>input := concat ls @ s\<rparr>)
        = NextTokens special (Suc k) (lx\<lparr>input := s\<rparr>)"
    by simp
next
  assume h: "current_token lx = TNewline \<and> starts_code rest \<and> int n \<noteq> current_indent lx"
  then show "NextTokens special (nat \<bar>int n - current_indent lx\<bar>)
          (lx\<lparr>input := replicate (2 * n) (CHR '' '') @ rest\<rparr>)
        = Inr (replicate (nat \<bar>int n - current_indent lx\<bar>) (layout_token (current_indent lx) n),
               lx\<lparr>input := rest, current_token := layout_token (current_indent lx) n,
                  current_indent := int n, diff_current_prev_indent := 0\<rparr>)"
    by (simp add: layout_tokens_from_newline)
  fix lx'
  let ?e = "lx\<lparr>input := rest, current_token := layout_token (current_indent lx) n,
                      current_indent := int n, diff_current_prev_indent := 0\<rparr>"
  assume n: "NextToken special ?e = Inr lx'"
  have ct: "current_token ?e \<noteq> TEof" by (simp add: layout_token_def)
  have r: "resolve ?e = Inr ?e" by (simp add: resolve_def layout_token_def)
  have z: "diff_current_prev_indent ?e = 0" by simp
  from NextToken_no_layout[OF ct r z, of special] n
  show "current_token lx' \<noteq> TIndent" "current_token lx' \<noteq> TDedent" by simp_all
next
  assume h: "current_token lx = TNewline \<and> starts_code rest \<and> int n = current_indent lx"
  let ?a = "lx\<lparr>input := replicate (2 * n) (CHR '' '') @ rest\<rparr>"
  let ?lx1 = "lx\<lparr>input := rest, diff_current_prev_indent := 0, current_indent := int n\<rparr>"
  from h resolve_code_line[of lx rest n] show r: "resolve ?a = Inr ?lx1" by simp
  fix lx'
  assume n: "NextToken special ?a = Inr lx'"
  have ct: "current_token ?a \<noteq> TEof" using h by simp
  have z: "diff_current_prev_indent ?lx1 = 0" by simp
  from NextToken_no_layout[OF ct r z, of special] n
  show "current_token lx' \<noteq> TIndent" "current_token lx' \<noteq> TDedent" by simp_all
qed

theorem layout_tokens_at_line_boundary_witness:
  "NextToken example_special (lexer_after (TId ''x'') 0 ('' '' @ newline # newline # ''  # c'' @ newline # ''    y''))
     = Inr (lexer_after TNewline 0 (newline # ''  # c'' @ newline # ''    y''))
   \<and> NextTokens example_special 2 (lexer_after TNewline 0 (newline # ''  # c'' @ newline # ''    y''))
     = Inr ([TIndent, TIndent], lexer_after TIndent 2 ''y'')
   \<and> NextTokens example_special 1 (lexer_after TNewline 2 ''  y'')
     = Inr ([TDedent], lexer_after TDedent 1 ''y'')
   \<and> resolve (lexer_after TNewline 1 ''  y'') = Inr (lexer_after TNewline 1 ''y'')"
proof -
  let ?lx = "lexer_after (TId ''x'') 0 []"
  have a: "current_token ?lx \<noteq> TEof \<and> current_token ?lx \<noteq> TNewline \<and> diff_current_prev_indent ?lx = 0"
    by simp
  note A = layout_tokens_at_line_boundary[THEN conjunct1, rule_format, OF a,
      where special=example_special and j=1 and s="newline # ''  # c'' @ newline # ''    y''"]
  have 1: "NextToken example_special (lexer_after (TId ''x'') 0 ('' '' @ newline # newline # ''  # c'' @ newline # ''    y''))
     = Inr (lexer_after TNewline 0 (newline # ''  # c'' @ newline # ''    y''))"
    using A by simp
  let ?n = "lexer_after TNewline 0 []"
  have b: "current_token ?n = TNewline \<and> list_all is_blank_line [[newline], ''  # c'' @ [newline]]"
    by (simp add: is_blank_line_def IgnoreSpaces_def peek_def)
  note B = layout_tokens_at_line_boundary[THEN conjunct2, THEN conjunct1, rule_format, OF b,
      where special=example_special and k=1 and s="''    y''"]
  have c: "current_token ?n = TNewline \<and> starts_code ''y'' \<and> int 2 \<noteq> current_indent ?n"
    by (simp add: starts_code_def peek_def)
  note C = layout_tokens_at_line_boundary[where special=example_special,
      THEN conjunct2, THEN conjunct2, THEN conjunct1, rule_format, OF c, THEN conjunct1]
  have 2: "NextTokens example_special 2 (lexer_after TNewline 0 (newline # ''  # c'' @ newline # ''    y''))
     = Inr ([TIndent, TIndent], lexer_after TIndent 2 ''y'')"
    using B C by (simp add: layout_token_def numeral_2_eq_2 del: NextTokens.simps)
  let ?m = "lexer_after TNewline 2 []"
  have d: "current_token ?m = TNewline \<and> starts_code ''y'' \<and> int 1 \<noteq> current_indent ?m"
    by (simp add: starts_code_def peek_def)
  note D = layout_tokens_at_line_boundary[where special=example_special,
      THEN conjunct2, THEN conjunct2, THEN conjunct1, rule_format, OF d, THEN conjunct1]
  have 3: "NextTokens example_special 1 (lexer_after TNewline 2 ''  y'')
     = Inr ([TDedent], lexer_after TDedent 1 ''y'')"
    using D by (simp add: layout_token_def)
  let ?k = "lexer_after TNewline 1 []"
  have e: "current_token ?k = TNewline \<and> starts_code ''y'' \<and> int 1 = current_indent ?k"
    by (simp add: starts_code_def peek_def)
  note E = layout_tokens_at_line_boundary[THEN conjunct2, THEN conjunct2, THEN conjunct2, rule_format, OF e,
      THEN conjunct1]
  have 4: "resolve (lexer_after TNewline 1 ''  y'') = Inr (lexer_after TNewline 1 ''y'')"
    using E by simp
  from 1 2 3 4 show ?thesis by simp
qed


text \<open>
  The theorem is about a line that ends at its newline. A comment after code on the same
  line takes another path of \<open>NextToken\<close>: the layout of the next line is resolved there
  and once more by the call that follows the \<open>Newline\<close>, which by then finds no leading
  spaces. After \<open>: # c\<close> the line \<open>  y\<close> is announced by a \<open>Dedent\<close>.
\<close>

lemma trailing_comment_layout:
  "NextTokens special 2 (lexer_after (TChar (CHR '':'')) 0 ('' # c'' @ newline # ''  y''))
     = Inr ([TNewline, TDedent], lexer_after TDedent 0 ''y'')"
proof -
  let ?a = "lexer_after (TChar (CHR '':'')) 0 ('' # c'' @ newline # ''  y'')"
  have ct: "current_token ?a \<noteq> TEof" by simp
  have r: "resolve ?a = Inr ?a" by (simp add: resolve_def)
  have z: "diff_current_prev_indent ?a = 0" by simp
  have i: "IgnoreSpaces (input ?a) = ''# c'' @ newline # ''  y''" by (simp add: IgnoreSpaces_def)
  have g: "getline ('' c'' @ newline # ''  y'') = ''  y''" by (simp add: getline_def)
  have sc: "starts_code ''y''" by (simp add: starts_code_def peek_def)
  from code_line_layout[OF sc, where lx="lexer_after (TChar (CHR '':'')) 0 []" and k=2]
  have l: "IgnoreEmptyRawsAndComments (lexer_after (TChar (CHR '':'')) 0 ''  y'')
      = Inr ((lexer_after (TChar (CHR '':'')) 1 ''y'')\<lparr>diff_current_prev_indent := 1\<rparr>)"
    by (simp add: lexer_after_def)
  let ?b = "(lexer_after TNewline 1 ''y'')\<lparr>diff_current_prev_indent := 1\<rparr>"
  have 1: "NextToken special ?a = Inr ?b"
    unfolding NextToken_unfold[OF ct r z] i using g l
    by (simp add: isdigit_def is_EOF_def peek_def lexer_after_def)
  have ctb: "current_token ?b \<noteq> TEof" by (simp add: lexer_after_def)
  from code_line_layout[OF sc, where lx="?b" and k=0]
  have rb: "resolve ?b = Inr ((lexer_after TNewline 0 ''y'')\<lparr>diff_current_prev_indent := - 1\<rparr>)"
    by (simp add: resolve_def lexer_after_def)
  have nz: "diff_current_prev_indent ((lexer_after TNewline 0 ''y'')\<lparr>diff_current_prev_indent := - 1\<rparr>) \<noteq> 0"
    by simp
  have 2: "NextToken special ?b = Inr (lexer_after TDedent 0 ''y'')"
    unfolding NextToken_pending[OF ctb rb nz]
    by (simp add: ParseIndentOrDedent_def lexer_after_def)
  from 1 2 show ?thesis by (simp add: numeral_2_eq_2 lexer_after_def)
qed

text \<open>
  Claim C8 (\<open>IgnoreEmptyRawsAndComments\<close>, \<open>IgnoreInitialComments\<close>). A line of code with an
  odd number of leading spaces raises "invalid indent", and an even number sets the level
  to half of it. The code breaks this on the first line of code of the input. The
  constructor runs \<open>IgnoreInitialComments\<close>, which skips the spaces in front of the first
  line of code, and only then \<open>NextToken\<close> with \<open>Newline\<close> as current token: layout
  resolution runs on the line with its spaces already gone and counts none. Three spaces
  in front of the first name raise nothing: the tokens are the name and the \<open>Newline\<close> at
  the end of the input.
\<close>

theorem first_line_odd_indent:
  "tokens_of spec_special_symbols 1 ''   x'' = Inr [TId ''x'', TNewline]"
  by (simp add: NextToken.simps IgnoreEmptyRawsAndComments.simps IgnoreInitialComments.simps
      Lexer_init_def IgnoreSpaces_def count_spaces_def peek_def is_EOF_def getline_def
      isdigit_def isalpha_def ident_char_def comparison_symbols_def
      spec_special_symbols_def emit_def ParseName_def keyword_to_token_def Let_def
      tokens_of_def lexer_after_def)

text \<open>
  The same line after a blank line: \<open>IgnoreInitialComments\<close> stops at the newline, layout
  resolution skips the blank line, counts the three spaces and raises. Four spaces in
  front of the first name leave the level at 0.
\<close>

lemma blank_line_then_odd_indent:
  "tokens_of spec_special_symbols 1 (newline # ''   x'') = Inl (LexerError ''invalid indent'')"
  by (simp add: NextToken.simps IgnoreEmptyRawsAndComments.simps IgnoreInitialComments.simps
      Lexer_init_def IgnoreSpaces_def count_spaces_def peek_def is_EOF_def getline_def
      isdigit_def isalpha_def ident_char_def comparison_symbols_def
      spec_special_symbols_def emit_def ParseName_def keyword_to_token_def Let_def
      tokens_of_def lexer_after_def)

lemma first_line_even_indent:
  "Lexer_init spec_special_symbols ''    x'' = Inr (lexer_after (TId ''x'') 0 [])"
  by (simp add: NextToken.simps IgnoreEmptyRawsAndComments.simps IgnoreInitialComments.simps
      Lexer_init_def IgnoreSpaces_def count_spaces_def peek_def is_EOF_def getline_def
      isdigit_def isalpha_def ident_char_def comparison_symbols_def
      spec_special_symbols_def emit_def ParseName_def keyword_to_token_def Let_def
      tokens_of_def lexer_after_def)

text \<open>
  Layout resolution where it runs. When \<open>IgnoreEmptyRawsAndComments\<close>, after any blank and
  comment-only lines, counts an odd number of spaces in front of a character that is no
  space, no newline and no \<open>#\<close> (or in front of the end of the input), it raises
  "invalid indent", and so does every sequence of calls of \<open>NextToken\<close> that starts
  there, after a newline or after a comment that follows code. When the number is even,
  that call sets the indent level to half of it.
\<close>

theorem odd_indent_raises:
  "(list_all is_blank_line ls \<and> starts_code rest \<longrightarrow>
      IgnoreEmptyRawsAndComments (lx\<lparr>input := concat ls @ replicate k (CHR '' '') @ rest\<rparr>)
        = (if odd k then Inl (LexerError ''invalid indent'')
           else Inr (lx\<lparr>input := rest,
                        diff_current_prev_indent := int (k div 2) - current_indent lx,
                        current_indent := int (k div 2)\<rparr>)))
   \<and> (list_all is_blank_line ls \<and> starts_code rest \<and> odd k \<and> current_token lx = TNewline \<longrightarrow>
      NextTokens special (Suc m) (lx\<lparr>input := concat ls @ replicate k (CHR '' '') @ rest\<rparr>)
        = Inl (LexerError ''invalid indent''))
   \<and> (list_all is_blank_line ls \<and> starts_code rest \<and> odd k \<and> newline \<notin> set comment \<and>
      current_token lx \<noteq> TEof \<and> current_token lx \<noteq> TNewline \<and> diff_current_prev_indent lx = 0 \<longrightarrow>
      NextTokens special (Suc m)
          (lx\<lparr>input := replicate j (CHR '' '') @ CHR ''#'' # comment @ newline #
                            concat ls @ replicate k (CHR '' '') @ rest\<rparr>)
        = Inl (LexerError ''invalid indent''))"
proof (intro conjI impI)
  assume "list_all is_blank_line ls \<and> starts_code rest"
  then show "IgnoreEmptyRawsAndComments (lx\<lparr>input := concat ls @ replicate k (CHR '' '') @ rest\<rparr>)
        = (if odd k then Inl (LexerError ''invalid indent'')
           else Inr (lx\<lparr>input := rest,
                        diff_current_prev_indent := int (k div 2) - current_indent lx,
                        current_indent := int (k div 2)\<rparr>))"
    by (simp add: blank_lines_skip code_line_layout)
next
  assume h: "list_all is_blank_line ls \<and> starts_code rest \<and> odd k \<and> current_token lx = TNewline"
  let ?a = "lx\<lparr>input := concat ls @ replicate k (CHR '' '') @ rest\<rparr>"
  from h have "resolve ?a = Inl (LexerError ''invalid indent'')"
    by (simp add: resolve_def blank_lines_skip code_line_layout)
  moreover from h have "current_token ?a \<noteq> TEof" by simp
  ultimately have "NextToken special ?a = Inl (LexerError ''invalid indent'')"
    by (intro NextToken_resolve_error)
  then show "NextTokens special (Suc m) ?a = Inl (LexerError ''invalid indent'')"
    by (rule NextTokens_error)
next
  assume h: "list_all is_blank_line ls \<and> starts_code rest \<and> odd k \<and> newline \<notin> set comment \<and>
      current_token lx \<noteq> TEof \<and> current_token lx \<noteq> TNewline \<and> diff_current_prev_indent lx = 0"
  let ?more = "concat ls @ replicate k (CHR '' '') @ rest"
  let ?a = "lx\<lparr>input := replicate j (CHR '' '') @ CHR ''#'' # comment @ newline # ?more\<rparr>"
  have ct: "current_token ?a \<noteq> TEof" using h by simp
  have r: "resolve ?a = Inr ?a" using h by (simp add: resolve_def)
  have z: "diff_current_prev_indent ?a = 0" using h by simp
  have i: "IgnoreSpaces (input ?a) = CHR ''#'' # comment @ newline # ?more"
    by (simp add: IgnoreSpaces_spaces) (simp add: IgnoreSpaces_def)
  from h have "dropWhile (\<lambda>c. c \<noteq> newline) (comment @ newline # ?more) = newline # ?more"
    by (subst dropWhile_append2) auto
  then have g: "getline (comment @ newline # ?more) = ?more" by (simp add: getline_def)
  from h have l: "IgnoreEmptyRawsAndComments (lx\<lparr>input := ?more\<rparr>) = Inl (LexerError ''invalid indent'')"
    by (simp add: blank_lines_skip code_line_layout)
  have "NextToken special ?a = Inl (LexerError ''invalid indent'')"
    unfolding NextToken_unfold[OF ct r z] i using g l by (simp add: isdigit_def)
  then show "NextTokens special (Suc m) ?a = Inl (LexerError ''invalid indent'')"
    by (rule NextTokens_error)
qed

theorem odd_indent_raises_witness:
  "NextTokens example_special 1 (lexer_after TNewline 0 (newline # ''   x = 1''))
     = Inl (LexerError ''invalid indent'')
   \<and> IgnoreEmptyRawsAndComments (lexer_after TNewline 0 (newline # ''    y''))
     = Inr ((lexer_after TNewline 2 ''y'')\<lparr>diff_current_prev_indent := 2\<rparr>)
   \<and> NextTokens example_special 1 (lexer_after (TId ''x'') 0 ('' # c'' @ newline # ''   y''))
     = Inl (LexerError ''invalid indent'')"
proof -
  let ?n = "lexer_after TNewline 0 []"
  have a: "list_all is_blank_line [[newline]] \<and> starts_code ''y''"
    by (simp add: blank_examples starts_code_def peek_def)
  note A = odd_indent_raises[THEN conjunct1, rule_format, OF a, where lx="?n" and k=4]
  have 2: "IgnoreEmptyRawsAndComments (lexer_after TNewline 0 (newline # ''    y''))
     = Inr ((lexer_after TNewline 2 ''y'')\<lparr>diff_current_prev_indent := 2\<rparr>)"
    using A by (simp add: lexer_after_def)
  have b: "list_all is_blank_line [[newline]] \<and> starts_code ''x = 1'' \<and> odd (3::nat) \<and> current_token ?n = TNewline"
    by (simp add: blank_examples starts_code_def peek_def)
  note B = odd_indent_raises[THEN conjunct2, THEN conjunct1, rule_format, OF b, where special=example_special and m=0]
  have 1: "NextTokens example_special 1 (lexer_after TNewline 0 (newline # ''   x = 1''))
     = Inl (LexerError ''invalid indent'')"
    using B by (simp add:)
  let ?x = "lexer_after (TId ''x'') 0 []"
  have c: "list_all is_blank_line [] \<and> starts_code ''y'' \<and> odd (3::nat) \<and> newline \<notin> set '' c'' \<and>
      current_token ?x \<noteq> TEof \<and> current_token ?x \<noteq> TNewline \<and> diff_current_prev_indent ?x = 0"
    by (simp add: starts_code_def peek_def)
  note C = odd_indent_raises[THEN conjunct2, THEN conjunct2, rule_format, OF c, where special=example_special and m=0 and j=1]
  have 3: "NextTokens example_special 1 (lexer_after (TId ''x'') 0 ('' # c'' @ newline # ''   y''))
     = Inl (LexerError ''invalid indent'')"
    using C by (simp add:)
  from 1 2 3 show ?thesis by simp
qed






end
